theory Spec2Isabelle
  imports Complex_Main "HOL-Library.Signed_Division"
begin

section \<open>Common conventions\<close>

text \<open>
  A C++ \<open>int\<close> is modelled as an unbounded \<open>int\<close>: no claim below depends on an
  arithmetic overflow. A \<open>double\<close> of the parking lot is a value of the type
  \<open>double\<close> below, with the rounding of IEEE 754 binary64 arithmetic; the amounts
  of the booking engine, whose functions are modelled from the specification, are the
  real numbers of the specification's sums. A time point of
  \<open>std::chrono::system_clock\<close> is the \<open>int\<close> count of clock ticks since the epoch,
  and every function that reads the clock takes the current time as the argument
  \<open>now\<close>. A \<open>std::string\<close> is a \<open>string\<close>.
\<close>

type_synonym time_point = int

subsection \<open>\<open>std::to_string\<close> on integers\<close>

definition digit_char :: "nat \<Rightarrow> char" where
  "digit_char d = char_of (48 + d)"

function digits_of :: "nat \<Rightarrow> string" where
  "digits_of n = (if n < 10 then [digit_char n] else digits_of (n div 10) @ [digit_char (n mod 10)])"
  by pat_completeness auto
termination
  by (relation "measure (\<lambda>n. n)") auto

definition to_string :: "int \<Rightarrow> string" where
  "to_string i = (if i < 0 then CHR ''-'' # digits_of (nat (- i)) else digits_of (nat i))"

section \<open>The type \<open>double\<close>\<close>

text \<open>
  An IEEE 754 binary64 value: a finite number (\<open>Finite 0\<close> is the positive zero), the
  negative zero, an infinity or a NaN. A finite double is the real number it denotes.
\<close>

datatype double = Finite real | NegZero | PlusInf | MinusInf | NaN

text \<open>The sign bit (true for negative) and the value of a finite double or a zero.\<close>

definition double_sign :: "double \<Rightarrow> bool" where
  "double_sign x = (case x of Finite r \<Rightarrow> r < 0 | NegZero \<Rightarrow> True | MinusInf \<Rightarrow> True | _ \<Rightarrow> False)"

definition double_value :: "double \<Rightarrow> real" where
  "double_value x = (case x of Finite r \<Rightarrow> r | _ \<Rightarrow> 0)"

definition is_infinite :: "double \<Rightarrow> bool" where
  "is_infinite x = (x = PlusInf \<or> x = MinusInf)"

definition is_zero :: "double \<Rightarrow> bool" where
  "is_zero x = (x = Finite 0 \<or> x = NegZero)"

text \<open>
  The binary exponent of a magnitude: the greatest \<open>e\<close> from 1023 down to -1022 with
  \<open>2 powi e \<le> v\<close>, and -1022 for a magnitude below the normal range.
\<close>

fun exp_search :: "nat \<Rightarrow> int \<Rightarrow> real \<Rightarrow> int" where
  "exp_search 0 e v = e"
| "exp_search (Suc n) e v = (if 2 powi e \<le> v then e else exp_search n (e - 1) v)"

definition exponent_of :: "real \<Rightarrow> int" where
  "exponent_of v = exp_search 2045 1023 v"

text \<open>Rounding to the nearest integer, a tie to the even one.\<close>

definition round_half_even :: "real \<Rightarrow> int" where
  "round_half_even q =
     (let f = \<lfloor>q\<rfloor>; d = q - of_int f
      in if d < 1 / 2 then f else if 1 / 2 < d then f + 1 else if even f then f else f + 1)"

text \<open>
  Rounding a magnitude \<open>v \<ge> 0\<close> with a sign to a double, to nearest and ties to even:
  the nearest multiple of the unit in the last place of the binade of \<open>v\<close> (53 bits of
  precision; the spacing of the subnormal numbers below the normal range), a zero with
  the sign when that multiple is zero, and an infinity when it reaches \<open>2 powi 1024\<close>.
\<close>

definition round_to_double :: "bool \<Rightarrow> real \<Rightarrow> double" where
  "round_to_double negative v =
     (let ulp = 2 powi (exponent_of v - 52);
          m = of_int (round_half_even (v / ulp)) * ulp
      in if m = 0 then (if negative then NegZero else Finite 0)
         else if 2 powi 1024 \<le> m then (if negative then MinusInf else PlusInf)
         else Finite (if negative then - m else m))"

text \<open>The conversion of an integer to \<open>double\<close>, and the product of two doubles.\<close>

definition double_of_int :: "int \<Rightarrow> double" where
  "double_of_int n = round_to_double (n < 0) \<bar>of_int n\<bar>"

definition double_mul :: "double \<Rightarrow> double \<Rightarrow> double" where
  "double_mul x y =
     (if x = NaN \<or> y = NaN then NaN
      else if is_infinite x \<or> is_infinite y
      then (if is_zero x \<or> is_zero y then NaN
            else if double_sign x \<noteq> double_sign y then MinusInf else PlusInf)
      else round_to_double (double_sign x \<noteq> double_sign y) \<bar>double_value x * double_value y\<bar>)"


text \<open>The comparison \<open>x <= y\<close> of two doubles: false when one of them is a NaN.\<close>

definition double_le :: "double \<Rightarrow> double \<Rightarrow> bool" where
  "double_le x y =
     (if x = NaN \<or> y = NaN then False
      else if x = MinusInf \<or> y = PlusInf then True
      else if x = PlusInf \<or> y = MinusInf then False
      else double_value x \<le> double_value y)"

section \<open>Movie ticket booking: \<open>utils/Exceptions.h\<close>\<close>

text \<open>
  \<open>MovieBookingException\<close> stores the message, the error code and the HTTP status
  code; its constructor defaults are \<open>errorCode = ""\<close> and \<open>httpStatusCode = 500\<close>.
  A derived class is a record extension, and its constructor calls the constructor of
  its base with the arguments written in the header. The members \<open>message_\<close>,
  \<open>errorCode_\<close>, \<open>httpStatusCode_\<close> and \<open>rule_\<close> are the fields prefixed \<open>ex_\<close>.
\<close>

record MovieBookingException =
  ex_message :: string
  ex_errorCode :: string
  ex_httpStatusCode :: int

definition MovieBookingException_ctor :: "string \<Rightarrow> string \<Rightarrow> int \<Rightarrow> MovieBookingException" where
  "MovieBookingException_ctor message errorCode httpStatusCode =
     \<lparr>ex_message = message, ex_errorCode = errorCode, ex_httpStatusCode = httpStatusCode\<rparr>"

definition getErrorCode :: "'a MovieBookingException_scheme \<Rightarrow> string" where
  "getErrorCode ex = ex_errorCode ex"

definition getHttpStatusCode :: "'a MovieBookingException_scheme \<Rightarrow> int" where
  "getHttpStatusCode ex = ex_httpStatusCode ex"

record BusinessRuleException = MovieBookingException +
  ex_rule :: string

definition BusinessRuleException_ctor :: "string \<Rightarrow> string \<Rightarrow> BusinessRuleException" where
  "BusinessRuleException_ctor message rule =
     MovieBookingException.extend
       (MovieBookingException_ctor message ''BUSINESS_RULE_VIOLATION'' 422)
       (BusinessRuleException.fields rule)"

definition BookingExpiredException_ctor :: "int \<Rightarrow> BusinessRuleException" where
  "BookingExpiredException_ctor bookingId =
     BusinessRuleException_ctor (''Booking '' @ to_string bookingId @ '' has expired'')
       ''BOOKING_EXPIRED''"

section \<open>Movie ticket booking: payment statuses and \<open>payment/PaymentGateway.h\<close>\<close>

text \<open>
  The repository declares two enumerations named \<open>PaymentStatus\<close>. The one of
  namespace \<open>Models\<close> (\<open>models/Booking.h\<close>) has the constructors prefixed \<open>PAY_\<close>
  here, the one of namespace \<open>Payment\<close> (\<open>payment/PaymentGateway.h\<close>) the
  constructors prefixed \<open>GW_\<close>.
\<close>

datatype Models_PaymentStatus =
  PAY_PENDING | PAY_PROCESSING | PAY_COMPLETED | PAY_FAILED | PAY_REFUNDED

datatype Payment_PaymentStatus =
  GW_PENDING | GW_PROCESSING | GW_COMPLETED | GW_FAILED | GW_REFUNDED | GW_CANCELLED

text \<open>
  \<open>PaymentResponse\<close>: the constructor initialises \<open>success\<close>, \<open>status\<close>, \<open>message\<close>
  and \<open>processedAt\<close>; the strings and the map it does not mention are default
  constructed, that is, empty. The fields carry the prefix \<open>pr_\<close>.
\<close>

record PaymentResponse =
  pr_success :: bool
  pr_transactionId :: string
  pr_paymentId :: string
  pr_status :: Payment_PaymentStatus
  pr_message :: string
  pr_gatewayResponse :: string
  pr_processedAt :: time_point
  pr_additionalData :: "(string \<times> string) list"

definition PaymentResponse_ctor :: "bool \<Rightarrow> string \<Rightarrow> time_point \<Rightarrow> PaymentResponse" where
  "PaymentResponse_ctor success' message' now =
     \<lparr>pr_success = success', pr_transactionId = [], pr_paymentId = [],
      pr_status = GW_FAILED, pr_message = message', pr_gatewayResponse = [],
      pr_processedAt = now, pr_additionalData = []\<rparr>"

section \<open>Parking lot: \<open>Vehicle.h\<close>, \<open>ParkingSlot.cpp\<close>\<close>

datatype VehicleType = CAR | TRUCK | MOTORCYCLE | ELECTRIC

record Vehicle =
  licenseNumber :: string
  type :: VehicleType

definition Vehicle_ctor :: "string \<Rightarrow> VehicleType \<Rightarrow> Vehicle" where
  "Vehicle_ctor licenseNum vehicleType = \<lparr>licenseNumber = licenseNum, type = vehicleType\<rparr>"

definition getLicenseNumber :: "Vehicle \<Rightarrow> string" where
  "getLicenseNumber v = licenseNumber v"

definition getType :: "Vehicle \<Rightarrow> VehicleType" where
  "getType v = type v"

text \<open>
  A \<open>std::shared_ptr<Vehicle>\<close> is a \<open>Vehicle option\<close>, \<open>None\<close> for the null pointer:
  a vehicle has no setter, so sharing it between a slot and a ticket is not observable.
\<close>

record ParkingSlot =
  slotNumber :: int
  isOccupied :: bool
  parkedVehicle :: "Vehicle option"
  slotType :: VehicleType

definition ParkingSlot_ctor :: "int \<Rightarrow> VehicleType \<Rightarrow> ParkingSlot" where
  "ParkingSlot_ctor number ty =
     \<lparr>slotNumber = number, isOccupied = False, parkedVehicle = None, slotType = ty\<rparr>"

definition isAvailable :: "ParkingSlot \<Rightarrow> bool" where
  "isAvailable slot = (\<not> isOccupied slot)"

definition canPark :: "ParkingSlot \<Rightarrow> VehicleType \<Rightarrow> bool" where
  "canPark slot vehicleType =
     (\<not> isOccupied slot \<and>
      (slotType slot = vehicleType \<or> (slotType slot = TRUCK \<and> vehicleType = CAR)))"

text \<open>\<open>ParkingSlot::parkVehicle\<close>, called with a vehicle that is not null.\<close>

definition ParkingSlot_parkVehicle :: "Vehicle \<Rightarrow> ParkingSlot \<Rightarrow> bool \<times> ParkingSlot" where
  "ParkingSlot_parkVehicle vehicle slot =
     (if \<not> isOccupied slot \<and>
         (slotType slot = getType vehicle \<or> (slotType slot = TRUCK \<and> getType vehicle = CAR))
      then (True, slot\<lparr>parkedVehicle := Some vehicle, isOccupied := True\<rparr>)
      else (False, slot))"

definition vacateSlot :: "ParkingSlot \<Rightarrow> ParkingSlot" where
  "vacateSlot slot = slot\<lparr>parkedVehicle := None, isOccupied := False\<rparr>"

definition getSlotNumber :: "ParkingSlot \<Rightarrow> int" where
  "getSlotNumber slot = slotNumber slot"

definition getSlotType :: "ParkingSlot \<Rightarrow> VehicleType" where
  "getSlotType slot = slotType slot"

section \<open>Parking lot: \<open>ParkingTicket.cpp\<close>\<close>

text \<open>
  The constructor of \<open>ParkingTicket\<close> sets the ticket number, the vehicle, the slot
  number, the entry time (the current time) and \<open>isPaid\<close>. It leaves \<open>amountCharged\<close>
  uninitialised, which is \<open>None\<close> here, and \<open>exitTime\<close> default constructed, the
  epoch. The member \<open>slotNumber\<close> of the ticket is the field \<open>ticketSlotNumber\<close>.
\<close>

record ParkingTicket =
  ticketNumber :: string
  entryTime :: time_point
  exitTime :: time_point
  amountCharged :: "double option"
  isPaid :: bool
  vehicle :: "Vehicle option"
  ticketSlotNumber :: int

definition ParkingTicket_ctor :: "string \<Rightarrow> Vehicle option \<Rightarrow> int \<Rightarrow> time_point \<Rightarrow> ParkingTicket" where
  "ParkingTicket_ctor number v slotNum now =
     \<lparr>ticketNumber = number, entryTime = now, exitTime = 0, amountCharged = None,
      isPaid = False, vehicle = v, ticketSlotNumber = slotNum\<rparr>"

text \<open>
  \<open>std::chrono::duration_cast<std::chrono::hours>\<close> of a difference of time points:
  the integer division of the tick count by the number of ticks in an hour, rounding
  towards zero as C++ integer division does (\<open>sdiv\<close>). The period of
  \<open>system_clock\<close> is chosen by the platform, so the number of ticks in an hour is the
  parameter \<open>ticksPerHour\<close> (3600000000000 for a nanosecond clock).
\<close>

definition duration_cast_hours :: "int \<Rightarrow> int \<Rightarrow> int" where
  "duration_cast_hours ticksPerHour d = d sdiv ticksPerHour"

text \<open>
  \<open>ParkingTicket::calculateFee\<close>: the count of whole hours plus one is converted to
  \<open>double\<close>, and the fee is the \<open>double\<close> product of the hours and the rate.
\<close>

definition calculateFee :: "double \<Rightarrow> time_point \<Rightarrow> int \<Rightarrow> ParkingTicket \<Rightarrow> double \<times> ParkingTicket" where
  "calculateFee rate now ticksPerHour t =
     (let duration = duration_cast_hours ticksPerHour (now - entryTime t);
          hours = double_of_int (duration + 1);
          fee = double_mul hours rate
      in (fee, t\<lparr>amountCharged := Some fee\<rparr>))"

definition getTicketNumber :: "ParkingTicket \<Rightarrow> string" where
  "getTicketNumber t = ticketNumber t"

definition ParkingTicket_getSlotNumber :: "ParkingTicket \<Rightarrow> int" where
  "ParkingTicket_getSlotNumber t = ticketSlotNumber t"

text \<open>
  The elapsed time truncated to whole hours, as the claim about the fee words it: the
  quotient of the elapsed ticks by the ticks of an hour, as a real number, with its
  fractional part dropped.
\<close>

definition truncated_hours :: "int \<Rightarrow> int \<Rightarrow> int" where
  "truncated_hours ticksPerHour d =
     (if 0 \<le> real_of_int d / real_of_int ticksPerHour
      then \<lfloor>real_of_int d / real_of_int ticksPerHour\<rfloor>
      else \<lceil>real_of_int d / real_of_int ticksPerHour\<rceil>)"

section \<open>Parking lot: \<open>ParkingLot.cpp\<close>\<close>

text \<open>
  The slots are owned by the lot only, so the vector of shared pointers is a list of
  slots; \<open>activeTickets\<close> is a map from ticket numbers to tickets.
\<close>

record ParkingLot =
  parkingSlots :: "ParkingSlot list"
  activeTickets :: "string \<rightharpoonup> ParkingTicket"
  hourlyRate :: double
  nextTicketNumber :: int

text \<open>
  One loop of the constructor: \<open>n\<close> slots of one type, numbered from \<open>start\<close>; a
  negative count runs the loop no time.
\<close>

definition make_slots :: "int \<Rightarrow> int \<Rightarrow> VehicleType \<Rightarrow> ParkingSlot list" where
  "make_slots start n ty = map (\<lambda>i. ParkingSlot_ctor (start + int i) ty) [0..<nat n]"

definition ParkingLot_ctor :: "int \<Rightarrow> int \<Rightarrow> int \<Rightarrow> double \<Rightarrow> ParkingLot" where
  "ParkingLot_ctor carSpaces truckSpaces motorcycleSpaces rate =
     (let trucks = make_slots 1 truckSpaces TRUCK;
          cars = make_slots (1 + int (length trucks)) carSpaces CAR;
          motorcycles =
            make_slots (1 + int (length trucks) + int (length cars)) motorcycleSpaces MOTORCYCLE
      in \<lparr>parkingSlots = trucks @ cars @ motorcycles, activeTickets = Map.empty,
          hourlyRate = rate, nextTicketNumber = 1\<rparr>)"

text \<open>
  \<open>std::setw(8)\<close> with \<open>std::setfill('0')\<close>: the number is padded on the left with
  zeros to eight characters.
\<close>

definition setw_setfill :: "nat \<Rightarrow> char \<Rightarrow> string \<Rightarrow> string" where
  "setw_setfill w c str = replicate (w - length str) c @ str"

definition generateTicketNumber :: "ParkingLot \<Rightarrow> string \<times> ParkingLot" where
  "generateTicketNumber lot =
     (''TKT'' @ setw_setfill 8 CHR ''0'' (to_string (nextTicketNumber lot)),
      lot\<lparr>nextTicketNumber := nextTicketNumber lot + 1\<rparr>)"

text \<open>\<open>std::find_if\<close> over the slots: the position of the first slot that can park the type.\<close>

fun find_slot :: "VehicleType \<Rightarrow> ParkingSlot list \<Rightarrow> nat option" where
  "find_slot vt [] = None"
| "find_slot vt (slot # slots) =
     (if canPark slot vt then Some 0 else map_option Suc (find_slot vt slots))"

definition parkVehicle :: "Vehicle option \<Rightarrow> time_point \<Rightarrow> ParkingLot \<Rightarrow> ParkingTicket option \<times> ParkingLot" where
  "parkVehicle v now lot =
     (case v of
        None \<Rightarrow> (None, lot)
      | Some veh \<Rightarrow>
          (case find_slot (getType veh) (parkingSlots lot) of
             None \<Rightarrow> (None, lot)
           | Some i \<Rightarrow>
               (case ParkingSlot_parkVehicle veh (parkingSlots lot ! i) of
                  (True, slot') \<Rightarrow>
                    (let lot1 = lot\<lparr>parkingSlots := (parkingSlots lot)[i := slot']\<rparr>;
                         (number, lot2) = generateTicketNumber lot1;
                         ticket = ParkingTicket_ctor number (Some veh) (getSlotNumber slot') now
                     in (Some ticket,
                         lot2\<lparr>activeTickets := (activeTickets lot2)(number \<mapsto> ticket)\<rparr>))
                | (False, slot') \<Rightarrow>
                    (None, lot\<lparr>parkingSlots := (parkingSlots lot)[i := slot']\<rparr>))))"

definition exitParking :: "string \<Rightarrow> time_point \<Rightarrow> int \<Rightarrow> ParkingLot \<Rightarrow> double \<times> ParkingLot" where
  "exitParking number now ticksPerHour lot =
     (case activeTickets lot number of
        None \<Rightarrow> (Finite (- 1), lot)
      | Some ticket \<Rightarrow>
          (let (fee, ticket') = calculateFee (hourlyRate lot) now ticksPerHour ticket;
               slotNum = ParkingTicket_getSlotNumber ticket';
               slots = parkingSlots lot;
               slots' =
                 (if slotNum > 0 \<and> slotNum \<le> int (length slots)
                  then slots[nat (slotNum - 1) := vacateSlot (slots ! nat (slotNum - 1))]
                  else slots)
           in (fee, lot\<lparr>parkingSlots := slots',
                         activeTickets := (activeTickets lot)(number := None)\<rparr>)))"

definition getAvailableSpaces :: "VehicleType \<Rightarrow> ParkingLot \<Rightarrow> int" where
  "getAvailableSpaces ty lot =
     int (length (filter
       (\<lambda>slot. isAvailable slot \<and>
          (getSlotType slot = ty \<or> (ty = CAR \<and> getSlotType slot = TRUCK)))
       (parkingSlots lot)))"

definition getTotalSpaces :: "ParkingLot \<Rightarrow> int" where
  "getTotalSpaces lot = int (length (parkingSlots lot))"

text \<open>
  The number of free slots of one type, and the numbering the constructor gives the
  slots: the slot at position \<open>i\<close> (from 0) has the number \<open>i + 1\<close>.
\<close>

definition free_slots_of :: "VehicleType \<Rightarrow> ParkingLot \<Rightarrow> int" where
  "free_slots_of ty lot =
     int (length (filter (\<lambda>slot. \<not> isOccupied slot \<and> slotType slot = ty) (parkingSlots lot)))"

definition slots_numbered :: "ParkingLot \<Rightarrow> bool" where
  "slots_numbered lot =
     (map slotNumber (parkingSlots lot) = map (\<lambda>i. int i + 1) [0..<length (parkingSlots lot)])"

section \<open>Movie ticket booking: the seat reservation engine\<close>

text \<open>
  The headers \<open>models/Show.h\<close>, \<open>models/Booking.h\<close> and
  \<open>services/BookingService.h\<close> declare the classes and the member functions of the
  engine; the bodies of the member functions are not part of the sources. The data
  follows the headers, the functions follow the design of the specification, and each
  such function says so. In the engine a time point counts seconds, and a lock duration
  is given in minutes.
\<close>

subsection \<open>\<open>models/Show.h\<close>: show seats\<close>

datatype ShowSeatStatus = AVAILABLE | LOCKED | BOOKED | MAINTENANCE

text \<open>
  The members of \<open>ShowSeat\<close>, prefixed \<open>ss_\<close>. The holder \<open>bookingId_\<close> and the
  expiry \<open>lockedUntil_\<close> are nullable in the data model of the specification:
  \<open>None\<close> is the empty holder and the cleared expiry.
\<close>

record ShowSeat =
  ss_id :: int
  ss_showId :: int
  ss_seatId :: int
  ss_status :: ShowSeatStatus
  ss_lockedUntil :: "time_point option"
  ss_bookingId :: "int option"
  ss_price :: real

text \<open>
  Modelled from the spec: the body of the constructor \<open>ShowSeat::ShowSeat\<close> is
  missing. The declaration gives the arguments (the status defaults to AVAILABLE, the
  price to 0.0); a new seat has no holder and no expiry.
\<close>

definition ShowSeat_ctor :: "int \<Rightarrow> int \<Rightarrow> int \<Rightarrow> ShowSeatStatus \<Rightarrow> real \<Rightarrow> ShowSeat" where
  "ShowSeat_ctor ident showId seatId st price =
     \<lparr>ss_id = ident, ss_showId = showId, ss_seatId = seatId, ss_status = st,
      ss_lockedUntil = None, ss_bookingId = None, ss_price = price\<rparr>"

text \<open>
  The expiry of a lock has passed at the time \<open>now\<close> (a stale lock): \<open>lockedUntil \<le> now\<close>.
  A lock without an expiry never becomes stale.
\<close>

definition lock_is_stale :: "time_point \<Rightarrow> ShowSeat \<Rightarrow> bool" where
  "lock_is_stale now seat = (case ss_lockedUntil seat of None \<Rightarrow> False | Some t \<Rightarrow> t \<le> now)"

text \<open>
  Modelled from the spec: the body of \<open>ShowSeat::canBeLocked\<close> is missing. It is the
  guard of the conditional update of a seat: the status is AVAILABLE, or the status is
  LOCKED and \<open>lockedUntil \<le> now\<close>.
\<close>

definition canBeLocked :: "time_point \<Rightarrow> ShowSeat \<Rightarrow> bool" where
  "canBeLocked now seat =
     (ss_status seat = AVAILABLE \<or> (ss_status seat = LOCKED \<and> lock_is_stale now seat))"

text \<open>
  Modelled from the spec: the body of \<open>ShowSeat::lockSeat\<close> is missing. Under the guard
  the seat becomes LOCKED, held by the booking, until \<open>now\<close> plus the lock duration;
  otherwise the seat is unchanged and the result is false.
\<close>

definition lockSeat :: "int \<Rightarrow> int \<Rightarrow> time_point \<Rightarrow> ShowSeat \<Rightarrow> bool \<times> ShowSeat" where
  "lockSeat bookingId lockDurationMinutes now seat =
     (if canBeLocked now seat
      then (True, seat\<lparr>ss_status := LOCKED, ss_bookingId := Some bookingId,
                        ss_lockedUntil := Some (now + 60 * lockDurationMinutes)\<rparr>)
      else (False, seat))"

text \<open>
  Modelled from the spec: the body of \<open>ShowSeat::releaseLock\<close> is missing. A LOCKED
  seat becomes AVAILABLE, with the holder and the expiry cleared.
\<close>

definition releaseLock :: "ShowSeat \<Rightarrow> bool \<times> ShowSeat" where
  "releaseLock seat =
     (if ss_status seat = LOCKED
      then (True, seat\<lparr>ss_status := AVAILABLE, ss_bookingId := None, ss_lockedUntil := None\<rparr>)
      else (False, seat))"

text \<open>
  Modelled from the spec: the body of \<open>ShowSeat::bookSeat\<close> is missing. A seat that is
  LOCKED and held by the booking becomes BOOKED.
\<close>

definition bookSeat :: "int \<Rightarrow> ShowSeat \<Rightarrow> bool \<times> ShowSeat" where
  "bookSeat bookingId seat =
     (if ss_status seat = LOCKED \<and> ss_bookingId seat = Some bookingId
      then (True, seat\<lparr>ss_status := BOOKED\<rparr>)
      else (False, seat))"

text \<open>The invariants of a seat in the data model of the specification.\<close>

definition seat_invariant :: "ShowSeat \<Rightarrow> bool" where
  "seat_invariant seat =
     (case ss_status seat of
        AVAILABLE \<Rightarrow> ss_bookingId seat = None \<and> ss_lockedUntil seat = None
      | LOCKED \<Rightarrow> ss_bookingId seat \<noteq> None \<and> ss_lockedUntil seat \<noteq> None
      | BOOKED \<Rightarrow> ss_bookingId seat \<noteq> None
      | MAINTENANCE \<Rightarrow> True)"

subsection \<open>The seat store and sequences of seat operations\<close>

text \<open>
  The seat store holds one row for each pair of a show id and a seat id. A booking
  holds a seat when the seat is LOCKED or BOOKED and names the booking as its holder.
\<close>

type_synonym seat_store = "int \<times> int \<rightharpoonup> ShowSeat"

definition holds_seat :: "seat_store \<Rightarrow> int \<times> int \<Rightarrow> int \<Rightarrow> bool" where
  "holds_seat store key bookingId =
     (case store key of
        None \<Rightarrow> False
      | Some seat \<Rightarrow>
          (ss_status seat = LOCKED \<or> ss_status seat = BOOKED) \<and> ss_bookingId seat = Some bookingId)"

text \<open>
  A seat is held firmly at the time \<open>now\<close> when it is BOOKED, or LOCKED with a lock
  that is not stale.
\<close>

definition held_firmly :: "time_point \<Rightarrow> seat_store \<Rightarrow> int \<times> int \<Rightarrow> bool" where
  "held_firmly now store key =
     (case store key of
        None \<Rightarrow> False
      | Some seat \<Rightarrow>
          ss_status seat = BOOKED \<or> (ss_status seat = LOCKED \<and> \<not> lock_is_stale now seat))"

datatype seat_op =
  LockSeat int int time_point
| ReleaseLock
| BookSeat int

fun apply_seat_op :: "seat_op \<Rightarrow> ShowSeat \<Rightarrow> bool \<times> ShowSeat" where
  "apply_seat_op (LockSeat bookingId lockDurationMinutes now) seat =
     lockSeat bookingId lockDurationMinutes now seat"
| "apply_seat_op ReleaseLock seat = releaseLock seat"
| "apply_seat_op (BookSeat bookingId) seat = bookSeat bookingId seat"

text \<open>
  Modelled from the spec: the application of a seat operation to a row of the seat
  store is missing. The row of the key is replaced when the operation succeeds; a key
  without a row is left alone.
\<close>

definition store_op :: "int \<times> int \<Rightarrow> seat_op \<Rightarrow> seat_store \<Rightarrow> bool \<times> seat_store" where
  "store_op key oper store =
     (case store key of
        None \<Rightarrow> (False, store)
      | Some seat \<Rightarrow>
          (case apply_seat_op oper seat of
             (ok, seat') \<Rightarrow> (ok, if ok then store(key \<mapsto> seat') else store)))"

fun run_ops :: "((int \<times> int) \<times> seat_op) list \<Rightarrow> seat_store \<Rightarrow> seat_store" where
  "run_ops [] store = store"
| "run_ops ((key, oper) # ops) store = run_ops ops (snd (store_op key oper store))"

definition store_invariant :: "seat_store \<Rightarrow> bool" where
  "store_invariant store = (\<forall>key seat. store key = Some seat \<longrightarrow> seat_invariant seat)"

subsection \<open>\<open>models/Booking.h\<close>: bookings\<close>

datatype BookingStatus = PENDING | CONFIRMED | CANCELLED | EXPIRED

text \<open>
  The members of \<open>Booking\<close>, prefixed \<open>b_\<close>; the seats of the booking are the list of
  their seat ids, and the payment reference is nullable.
\<close>

record Booking =
  b_id :: int
  b_userId :: int
  b_showId :: int
  b_seatIds :: "int list"
  b_bookingStatus :: BookingStatus
  b_paymentStatus :: Models_PaymentStatus
  b_totalAmount :: real
  b_paymentRef :: "string option"
  b_createdAt :: time_point
  b_expiresAt :: time_point
  b_updatedAt :: time_point

subsection \<open>\<open>services/BookingService.h\<close>: requests, results and the service\<close>

text \<open>
  \<open>SeatSelectionRequest\<close> and its inline constructor: the lock duration of a request
  is 15 minutes unless the caller changes the member.
\<close>

record SeatSelectionRequest =
  req_showId :: int
  req_seatIds :: "int list"
  req_userId :: int
  req_lockDurationMinutes :: int

definition SeatSelectionRequest_ctor :: "int \<Rightarrow> int list \<Rightarrow> int \<Rightarrow> SeatSelectionRequest" where
  "SeatSelectionRequest_ctor showId seatIds userId =
     \<lparr>req_showId = showId, req_seatIds = seatIds, req_userId = userId,
      req_lockDurationMinutes = 15\<rparr>"

text \<open>
  The error kinds of the engine, and the result of a successful \<open>initiateBooking\<close>: the
  booking id, the expiry and the total amount. A failed operation returns its error
  (\<open>Inl\<close>), the unavailable seats with it where the design names them.
\<close>

datatype error =
  NOT_FOUND
| SEAT_UNAVAILABLE "int list"
| CONFLICT
| BOOKING_EXPIRED
| TERMINAL
| NOT_CANCELLABLE
| TIMEOUT
| INVARIANT_VIOLATED
| UNAUTHORIZED

record BookingResult =
  br_bookingId :: int
  br_expiresAt :: time_point
  br_totalAmount :: real

text \<open>
  The state of the service: the seat store and the booking store behind its two
  repositories (the booking store gives each inserted row the next id), and the three
  configuration members.
\<close>

record BookingService =
  seatStore :: seat_store
  bookingStore :: "int \<rightharpoonup> Booking"
  nextBookingId :: int
  defaultLockDurationMinutes :: int
  cleanupIntervalMinutes :: int
  maxBookingRetries :: int

text \<open>A parameter with a default argument: \<open>None\<close> is the argument left out.\<close>

definition default_argument :: "'a \<Rightarrow> 'a option \<Rightarrow> 'a" where
  "default_argument d given = (case given of None \<Rightarrow> d | Some v \<Rightarrow> v)"

text \<open>
  Modelled from the spec: the body of the constructor \<open>BookingService::BookingService\<close>
  is missing. Its declaration gives the default arguments 15, 5 and 3; the constructor
  stores each argument in the configuration member of its name.
\<close>

definition BookingService_ctor ::
  "(int \<rightharpoonup> Booking) \<times> int \<Rightarrow> seat_store \<Rightarrow> int option \<Rightarrow> int option \<Rightarrow> int option \<Rightarrow> BookingService" where
  "BookingService_ctor bookingRepository showRepository lockDuration cleanupInterval retries =
     \<lparr>seatStore = showRepository, bookingStore = fst bookingRepository,
      nextBookingId = snd bookingRepository,
      defaultLockDurationMinutes = default_argument 15 lockDuration,
      cleanupIntervalMinutes = default_argument 5 cleanupInterval,
      maxBookingRetries = default_argument 3 retries\<rparr>"

text \<open>
  \<open>PaymentService\<close> of \<open>payment/PaymentGateway.h\<close>: the default gateway and the retry
  configuration; the retry delay counts seconds.
\<close>

record PaymentService =
  ps_defaultGateway :: string
  ps_maxRetries :: int
  ps_retryDelay :: int

text \<open>
  Modelled from the spec: the body of the constructor \<open>PaymentService::PaymentService\<close>
  is missing. Its declaration gives the default arguments \<open>"mock"\<close>, 3 and 2 seconds;
  the constructor stores each argument in the member of its name.
\<close>

definition PaymentService_ctor :: "string option \<Rightarrow> int option \<Rightarrow> int option \<Rightarrow> PaymentService" where
  "PaymentService_ctor defaultGateway maxRetries retryDelay =
     \<lparr>ps_defaultGateway = default_argument ''mock'' defaultGateway,
      ps_maxRetries = default_argument 3 maxRetries,
      ps_retryDelay = default_argument 2 retryDelay\<rparr>"

subsection \<open>The reservation engine: \<open>initiateBooking\<close>\<close>

text \<open>
  The bodies of \<open>BookingService::initiateBooking\<close>, \<open>processBookingRequest\<close> and of
  the private helpers they call are missing. The functions of this subsection follow
  the six steps of the design of \<open>initiateBooking\<close> in the specification, for one
  caller that holds the mutex of the show.
\<close>

text \<open>
  Modelled from the spec: the store read \<open>getSeats\<close> of step 1 is missing. It returns
  the rows of the requested seats, or nothing when a row is missing.
\<close>

fun getSeats :: "seat_store \<Rightarrow> int \<Rightarrow> int list \<Rightarrow> ShowSeat list option" where
  "getSeats store showId [] = Some []"
| "getSeats store showId (seatId # seatIds) =
     (case store (showId, seatId) of
        None \<Rightarrow> None
      | Some row \<Rightarrow>
          (case getSeats store showId seatIds of
             None \<Rightarrow> None
           | Some rows \<Rightarrow> Some (row # rows)))"

text \<open>
  Modelled from the spec: the availability check of step 2 is missing. A seat is
  unavailable when it is BOOKED, or LOCKED with \<open>lockedUntil > now\<close>; a stale lock
  counts as available, and no other status is rejected here.
\<close>

definition seat_unavailable :: "time_point \<Rightarrow> ShowSeat \<Rightarrow> bool" where
  "seat_unavailable now seat =
     (ss_status seat = BOOKED \<or> (ss_status seat = LOCKED \<and> \<not> lock_is_stale now seat))"

text \<open>
  Modelled from the spec: the failed seat ids of step 2 are the seat ids of the
  unavailable rows.
\<close>

definition failedSeatIds :: "time_point \<Rightarrow> ShowSeat list \<Rightarrow> int list" where
  "failedSeatIds now rows = map ss_seatId (filter (seat_unavailable now) rows)"

text \<open>
  Modelled from the spec: the body of \<open>BookingService::calculateTotalPrice\<close> is
  missing. Step 3: the total amount is the sum of the prices of the rows.
\<close>

definition calculateTotalPrice :: "ShowSeat list \<Rightarrow> real" where
  "calculateTotalPrice rows = sum_list (map ss_price rows)"

text \<open>
  Modelled from the spec: the body of \<open>BookingService::calculateExpiryTime\<close> is
  missing. The expiry is \<open>now\<close> plus the lock duration, 60 seconds for each minute.
\<close>

definition calculateExpiryTime :: "time_point \<Rightarrow> int \<Rightarrow> time_point" where
  "calculateExpiryTime now durationMinutes = now + 60 * durationMinutes"

text \<open>
  Modelled from the spec: the store operation \<open>insertBooking\<close> is missing. It stores
  the row under the next id of the store and returns that id.
\<close>

definition insertBooking :: "Booking \<Rightarrow> BookingService \<Rightarrow> int \<times> BookingService" where
  "insertBooking row svc =
     (let bookingId = nextBookingId svc
      in (bookingId,
          svc\<lparr>bookingStore := (bookingStore svc)(bookingId \<mapsto> row\<lparr>b_id := bookingId\<rparr>),
              nextBookingId := bookingId + 1\<rparr>))"

text \<open>
  Modelled from the spec: the body of \<open>BookingService::createPendingBooking\<close> is
  missing. Step 4: a booking row with the booking status PENDING, the payment status
  PENDING and the expiry \<open>now + lockDuration\<close> is inserted in the booking store.
\<close>

definition createPendingBooking ::
  "SeatSelectionRequest \<Rightarrow> real \<Rightarrow> time_point \<Rightarrow> BookingService \<Rightarrow> int \<times> BookingService" where
  "createPendingBooking request totalPrice now svc =
     insertBooking
       \<lparr>b_id = 0, b_userId = req_userId request, b_showId = req_showId request,
        b_seatIds = req_seatIds request, b_bookingStatus = PENDING,
        b_paymentStatus = PAY_PENDING, b_totalAmount = totalPrice, b_paymentRef = None,
        b_createdAt = now,
        b_expiresAt = calculateExpiryTime now (req_lockDurationMinutes request),
        b_updatedAt = now\<rparr>
       svc"

text \<open>
  Modelled from the spec: the store operation \<open>conditionalUpdateSeat\<close> is missing.
  Step 5, the conditional update of one seat row: the row becomes LOCKED, held by the
  booking until the expiry, under the guard of \<open>lockSeat\<close>; the update of a missing
  row or of a row that fails the guard is not applied.
\<close>

definition conditionalLockSeat ::
  "int \<times> int \<Rightarrow> int \<Rightarrow> int \<Rightarrow> time_point \<Rightarrow> seat_store \<Rightarrow> bool \<times> seat_store" where
  "conditionalLockSeat key bookingId lockDurationMinutes now store =
     store_op key (LockSeat bookingId lockDurationMinutes now) store"

text \<open>
  Modelled from the spec: the release of one seat of a booking is missing. A seat that
  is LOCKED and held by the booking becomes AVAILABLE with no holder and no expiry;
  every other seat is left alone.
\<close>

definition releaseSeatLock :: "int \<Rightarrow> ShowSeat \<Rightarrow> ShowSeat" where
  "releaseSeatLock bookingId seat =
     (if ss_status seat = LOCKED \<and> ss_bookingId seat = Some bookingId
      then snd (releaseLock seat) else seat)"

text \<open>
  Modelled from the spec: the body of \<open>BookingService::releaseSeatLocks\<close> is missing.
  It releases the locks of the booking on the listed seats of the show: the rollback
  of step 5 and the release of \<open>cancelBooking\<close> for a PENDING booking.
\<close>

fun releaseSeatLocks :: "int \<Rightarrow> int list \<Rightarrow> int \<Rightarrow> seat_store \<Rightarrow> seat_store" where
  "releaseSeatLocks showId [] bookingId store = store"
| "releaseSeatLocks showId (seatId # seatIds) bookingId store =
     releaseSeatLocks showId seatIds bookingId
       (case store (showId, seatId) of
          None \<Rightarrow> store
        | Some seat \<Rightarrow> store((showId, seatId) \<mapsto> releaseSeatLock bookingId seat))"

text \<open>
  Modelled from the spec: the loop of step 5 is missing. The seats are updated in the
  order of the request; \<open>updated\<close> are
  the seats updated so far. When an update is not applied, the prior updates are
  rolled back and the result is false.
\<close>

fun lockSeatsFrom ::
  "int \<Rightarrow> int list \<Rightarrow> int \<Rightarrow> int \<Rightarrow> time_point \<Rightarrow> int list \<Rightarrow> seat_store \<Rightarrow> bool \<times> seat_store" where
  "lockSeatsFrom showId [] bookingId lockDurationMinutes now updated store = (True, store)"
| "lockSeatsFrom showId (seatId # seatIds) bookingId lockDurationMinutes now updated store =
     (case conditionalLockSeat (showId, seatId) bookingId lockDurationMinutes now store of
        (True, store') \<Rightarrow>
          lockSeatsFrom showId seatIds bookingId lockDurationMinutes now (seatId # updated) store'
      | (False, store') \<Rightarrow> (False, releaseSeatLocks showId updated bookingId store'))"

text \<open>
  Modelled from the spec: the body of \<open>BookingService::attemptSeatLocking\<close> is
  missing. It is the loop of step 5 from the first seat of the request.
\<close>

definition attemptSeatLocking ::
  "int \<Rightarrow> int list \<Rightarrow> int \<Rightarrow> int \<Rightarrow> time_point \<Rightarrow> seat_store \<Rightarrow> bool \<times> seat_store" where
  "attemptSeatLocking showId seatIds bookingId lockDurationMinutes now store =
     lockSeatsFrom showId seatIds bookingId lockDurationMinutes now [] store"

text \<open>
  Modelled from the spec: the store operation \<open>updateBookingStates\<close> is missing, here
  for the booking status alone. A booking id without a row is left alone.
\<close>

definition setBookingStatus :: "int \<Rightarrow> BookingStatus \<Rightarrow> (int \<rightharpoonup> Booking) \<Rightarrow> (int \<rightharpoonup> Booking)" where
  "setBookingStatus bookingId st rows =
     (case rows bookingId of
        None \<Rightarrow> rows
      | Some row \<Rightarrow> rows(bookingId \<mapsto> row\<lparr>b_bookingStatus := st\<rparr>))"

text \<open>
  Modelled from the spec: the body of \<open>BookingService::initiateBooking\<close> is missing.
  Step 1 fails with NOT_FOUND when a row is missing; step 2 fails with SEAT_UNAVAILABLE
  and the failed seat ids; steps 3 and 4 compute the total and insert the PENDING
  booking; step 5 locks the seats, and when an update is not applied the seats are
  rolled back, the booking is set to CANCELLED and the result is CONFLICT; step 6
  returns the booking id, the expiry and the total.
\<close>

definition initiateBooking ::
  "SeatSelectionRequest \<Rightarrow> time_point \<Rightarrow> BookingService \<Rightarrow> (error + BookingResult) \<times> BookingService" where
  "initiateBooking request now svc =
     (case getSeats (seatStore svc) (req_showId request) (req_seatIds request) of
        None \<Rightarrow> (Inl NOT_FOUND, svc)
      | Some rows \<Rightarrow>
          if failedSeatIds now rows \<noteq> []
          then (Inl (SEAT_UNAVAILABLE (failedSeatIds now rows)), svc)
          else
            (let totalAmount = calculateTotalPrice rows;
                 (bookingId, svc1) = createPendingBooking request totalAmount now svc
             in case attemptSeatLocking (req_showId request) (req_seatIds request) bookingId
                       (req_lockDurationMinutes request) now (seatStore svc1) of
                  (True, store') \<Rightarrow>
                    (Inr \<lparr>br_bookingId = bookingId,
                          br_expiresAt =
                            calculateExpiryTime now (req_lockDurationMinutes request),
                          br_totalAmount = totalAmount\<rparr>,
                     svc1\<lparr>seatStore := store'\<rparr>)
                | (False, store') \<Rightarrow>
                    (Inl CONFLICT,
                     svc1\<lparr>seatStore := store',
                          bookingStore :=
                            setBookingStatus bookingId CANCELLED (bookingStore svc1)\<rparr>)))"

subsection \<open>The reservation engine: \<open>cancelBooking\<close>\<close>

text \<open>
  Modelled from the spec: the release of one seat of a confirmed booking is missing. A
  seat that is BOOKED and held by the booking becomes AVAILABLE with no holder and no
  expiry.
\<close>

definition releaseBookedSeat :: "int \<Rightarrow> ShowSeat \<Rightarrow> ShowSeat" where
  "releaseBookedSeat bookingId seat =
     (if ss_status seat = BOOKED \<and> ss_bookingId seat = Some bookingId
      then seat\<lparr>ss_status := AVAILABLE, ss_bookingId := None, ss_lockedUntil := None\<rparr>
      else seat)"

text \<open>
  Modelled from the spec: the release of the listed seats of a confirmed booking is
  missing; it releases each of them in turn.
\<close>

fun releaseBookedSeats :: "int \<Rightarrow> int list \<Rightarrow> int \<Rightarrow> seat_store \<Rightarrow> seat_store" where
  "releaseBookedSeats showId [] bookingId store = store"
| "releaseBookedSeats showId (seatId # seatIds) bookingId store =
     releaseBookedSeats showId seatIds bookingId
       (case store (showId, seatId) of
          None \<Rightarrow> store
        | Some seat \<Rightarrow> store((showId, seatId) \<mapsto> releaseBookedSeat bookingId seat))"

text \<open>
  Modelled from the spec: the body of \<open>BookingService::cancelBooking\<close> is missing. The
  booking must belong to the user. A PENDING booking has its seats released and
  becomes CANCELLED. A CONFIRMED booking of a show that starts later than \<open>now\<close> plus
  the grace has its seats released, its payment status set to REFUNDED and becomes
  CANCELLED, and a refund is enqueued: the result \<open>Inr True\<close>. Every other booking is
  not cancellable. The start of the show and the grace are read from the show catalog
  and the configuration, the arguments \<open>showStart\<close> and \<open>cancelGrace\<close>.
\<close>

definition cancelBooking ::
  "int \<Rightarrow> int \<Rightarrow> time_point \<Rightarrow> time_point \<Rightarrow> int \<Rightarrow> BookingService \<Rightarrow> (error + bool) \<times> BookingService" where
  "cancelBooking bookingId userId now showStart cancelGrace svc =
     (case bookingStore svc bookingId of
        None \<Rightarrow> (Inl NOT_FOUND, svc)
      | Some booking \<Rightarrow>
          if b_userId booking \<noteq> userId then (Inl UNAUTHORIZED, svc)
          else
            (case b_bookingStatus booking of
               PENDING \<Rightarrow>
                 (Inr False,
                  svc\<lparr>seatStore :=
                         releaseSeatLocks (b_showId booking) (b_seatIds booking) bookingId
                           (seatStore svc),
                       bookingStore :=
                         setBookingStatus bookingId CANCELLED (bookingStore svc)\<rparr>)
             | CONFIRMED \<Rightarrow>
                 if showStart > now + cancelGrace
                 then
                   (Inr True,
                    svc\<lparr>seatStore :=
                           releaseBookedSeats (b_showId booking) (b_seatIds booking) bookingId
                             (seatStore svc),
                         bookingStore :=
                           (bookingStore svc)(bookingId \<mapsto>
                              booking\<lparr>b_paymentStatus := PAY_REFUNDED,
                                      b_bookingStatus := CANCELLED\<rparr>)\<rparr>)
                 else (Inl NOT_CANCELLABLE, svc)
             | CANCELLED \<Rightarrow> (Inl NOT_CANCELLABLE, svc)
             | EXPIRED \<Rightarrow> (Inl NOT_CANCELLABLE, svc)))"

text \<open>
  Three readings of a seat row: the seat is LOCKED and held by a booking; it is so
  until a given expiry; it is AVAILABLE with no holder and no expiry.
\<close>

definition locked_to :: "seat_store \<Rightarrow> int \<times> int \<Rightarrow> int \<Rightarrow> bool" where
  "locked_to store key bookingId =
     (case store key of
        None \<Rightarrow> False
      | Some seat \<Rightarrow> ss_status seat = LOCKED \<and> ss_bookingId seat = Some bookingId)"

definition locked_until :: "seat_store \<Rightarrow> int \<times> int \<Rightarrow> int \<Rightarrow> time_point \<Rightarrow> bool" where
  "locked_until store key bookingId expiry =
     (case store key of
        None \<Rightarrow> False
      | Some seat \<Rightarrow> ss_status seat = LOCKED \<and> ss_bookingId seat = Some bookingId \<and>
          ss_lockedUntil seat = Some expiry)"

definition seat_released :: "seat_store \<Rightarrow> int \<times> int \<Rightarrow> bool" where
  "seat_released store key =
     (case store key of
        None \<Rightarrow> False
      | Some seat \<Rightarrow>
          ss_status seat = AVAILABLE \<and> ss_bookingId seat = None \<and> ss_lockedUntil seat = None)"

text \<open>
  An example service state: the show 1 with the seats 10 (AVAILABLE), 11 (MAINTENANCE)
  and 12 (AVAILABLE) at the price 100, no booking yet, the next booking id 1.
\<close>

definition example_service :: BookingService where
  "example_service =
     BookingService_ctor (Map.empty, 1)
       (Map.empty((1, 10) \<mapsto> ShowSeat_ctor 1 1 10 AVAILABLE 100,
                  (1, 11) \<mapsto> ShowSeat_ctor 2 1 11 MAINTENANCE 100,
                  (1, 12) \<mapsto> ShowSeat_ctor 3 1 12 AVAILABLE 100))
       None None None"

text \<open>
  An example for the theorems on \<open>exitParking\<close>: a lot with one truck slot, one car slot
  and one motorcycle slot at the rate 10, in which one car was parked at time 0. The car
  takes the first slot that can park it, the truck slot with the number 1.
\<close>

definition example_lot :: ParkingLot where
  "example_lot = snd (parkVehicle (Some (Vehicle_ctor ''KA01'' CAR)) 0 (ParkingLot_ctor 1 1 1 (Finite 10)))"

definition example_ticket :: ParkingTicket where
  "example_ticket = ParkingTicket_ctor ''TKT00000001'' (Some (Vehicle_ctor ''KA01'' CAR)) 1 0"

text \<open>An example seat store: the seat 10 of the show 1, AVAILABLE, at the price 100.\<close>

definition example_store :: seat_store where
  "example_store = Map.empty((1, 10) \<mapsto> ShowSeat_ctor 1 1 10 AVAILABLE 100)"

text \<open>
  A fourth reading of a seat row: the seat is BOOKED and held by a booking.
\<close>

definition booked_by :: "seat_store \<Rightarrow> int \<times> int \<Rightarrow> int \<Rightarrow> bool" where
  "booked_by store key bookingId =
     (case store key of
        None \<Rightarrow> False
      | Some seat \<Rightarrow> ss_status seat = BOOKED \<and> ss_bookingId seat = Some bookingId)"

text \<open>
  An operation on a seat that is locked to the booking \<open>holder\<close> until \<open>expiry\<close> is
  foreign to the lock when it is a \<open>lockSeat\<close> before the expiry or a \<open>bookSeat\<close> for another
  booking; a \<open>releaseLock\<close> is never foreign, it is how the lock is given up.
\<close>

definition foreign_op :: "int \<Rightarrow> time_point \<Rightarrow> seat_op \<Rightarrow> bool" where
  "foreign_op holder expiry oper =
     (case oper of
        LockSeat bookingId lockDurationMinutes now \<Rightarrow> now < expiry
      | ReleaseLock \<Rightarrow> False
      | BookSeat bookingId \<Rightarrow> bookingId \<noteq> holder)"

text \<open>
  The bookings that a sequence of seat operations makes of one seat: the booking ids of
  the \<open>bookSeat\<close> operations on that seat that succeed, in their order.
\<close>

fun bookings_made :: "((int \<times> int) \<times> seat_op) list \<Rightarrow> seat_store \<Rightarrow> int \<times> int \<Rightarrow> int list" where
  "bookings_made [] store key = []"
| "bookings_made ((k, oper) # ops) store key =
     (case oper of
        BookSeat bookingId \<Rightarrow> (if k = key \<and> fst (store_op k oper store) then [bookingId] else [])
      | _ \<Rightarrow> [])
     @ bookings_made ops (snd (store_op k oper store)) key"

text \<open>
  Two more examples: the seat store in which the booking 100 has locked and booked the
  seat 10, and a sequence in which a rival releases, locks and books that seat.
\<close>

definition example_booked_store :: seat_store where
  "example_booked_store =
     run_ops [((1, 10), LockSeat 100 15 0), ((1, 10), BookSeat 100)] example_store"

definition example_rival_ops :: "((int \<times> int) \<times> seat_op) list" where
  "example_rival_ops =
     [((1, 10), ReleaseLock), ((1, 10), LockSeat 200 15 5000), ((1, 10), BookSeat 200)]"

section \<open>Theorems\<close>

subsection \<open>Double arithmetic\<close>

text \<open>
  The exponent search finds the binade of a magnitude; a magnitude that is not negative
  rounds to a double that is not negative; a magnitude of the normal range rounds to
  the nearest multiple of the unit in the last place of its binade.
\<close>

lemma exp_search_found:
  "2 powi e \<le> v \<Longrightarrow> v < 2 powi (e + 1) \<Longrightarrow> e \<le> e0 \<Longrightarrow> e0 - e \<le> int n \<Longrightarrow>
   exp_search n e0 v = e"
proof (induction n arbitrary: e0)
  case 0
  then show ?case by simp
next
  case (Suc n)
  show ?case
  proof (cases "e0 = e")
    case True
    then show ?thesis using Suc.prems by simp
  next
    case False
    then have lt: "e + 1 \<le> e0" using Suc.prems by simp
    have "(2::real) powi (e + 1) \<le> 2 powi e0"
      using lt by (intro power_int_increasing) simp_all
    then have "\<not> 2 powi e0 \<le> v" using Suc.prems(2) by simp
    moreover have "exp_search n (e0 - 1) v = e"
      using Suc.prems lt by (intro Suc.IH) simp_all
    ultimately show ?thesis by simp
  qed
qed

lemma exponent_of_eq:
  "2 powi e \<le> v \<Longrightarrow> v < 2 powi (e + 1) \<Longrightarrow> - 1022 \<le> e \<Longrightarrow> e \<le> 1023 \<Longrightarrow> exponent_of v = e"
  unfolding exponent_of_def by (rule exp_search_found) simp_all

lemma round_half_even_nonneg: "0 \<le> q \<Longrightarrow> 0 \<le> round_half_even q"
  by (auto simp add: round_half_even_def Let_def)

lemma round_to_double_positive:
  assumes "0 \<le> v"
  shows "round_to_double False v = PlusInf \<or> (\<exists>m. 0 \<le> m \<and> round_to_double False v = Finite m)"
proof -
  have u: "(0::real) < 2 powi (exponent_of v - 52)" by simp
  then have "0 \<le> v / 2 powi (exponent_of v - 52)" using assms by simp
  then have "0 \<le> round_half_even (v / 2 powi (exponent_of v - 52))"
    by (rule round_half_even_nonneg)
  then have "0 \<le> real_of_int (round_half_even (v / 2 powi (exponent_of v - 52))) *
      2 powi (exponent_of v - 52)"
    using u by simp
  then show ?thesis
    by (auto simp add: round_to_double_def Let_def)
qed

lemma round_to_double_negative:
  "round_to_double True v \<noteq> Finite 0"
  by (auto simp add: round_to_double_def Let_def)

lemma double_of_int_positive:
  assumes "0 \<le> n"
  shows "double_of_int n = PlusInf \<or> (\<exists>m. 0 \<le> m \<and> double_of_int n = Finite m)"
  using assms round_to_double_positive [of "\<bar>of_int n\<bar>"] by (simp add: double_of_int_def)

lemma double_mul_nonneg:
  assumes "0 \<le> n" "double_le (Finite 0) rate"
  shows "double_mul (double_of_int n) rate \<noteq> Finite (- 1)"
proof -
  from double_of_int_positive [OF assms(1)] consider
    "double_of_int n = PlusInf" | m where "0 \<le> m" "double_of_int n = Finite m" by blast
  then show ?thesis
  proof cases
    case 1
    then show ?thesis by (simp add: double_mul_def is_infinite_def)
  next
    case 2
    show ?thesis
    proof (cases rate)
      case (Finite r)
      then have r: "0 \<le> r" using assms(2) by (simp add: double_le_def double_value_def)
      from round_to_double_positive [of "\<bar>m * r\<bar>"]
      show ?thesis using 2 Finite r
        by (auto simp add: double_mul_def is_infinite_def double_sign_def double_value_def)
    next
      case NegZero
      then show ?thesis using 2
        by (simp add: double_mul_def is_infinite_def double_sign_def double_value_def
            round_to_double_def round_half_even_def Let_def)
    next
      case PlusInf
      then show ?thesis by (simp add: double_mul_def is_infinite_def)
    next
      case MinusInf
      then show ?thesis by (simp add: double_mul_def is_infinite_def)
    next
      case NaN
      then show ?thesis by (simp add: double_mul_def)
    qed
  qed
qed

lemma round_to_double_eval:
  assumes "2 powi e \<le> v" "v < 2 powi (e + 1)" "- 1022 \<le> e" "e \<le> 1022"
    and "of_int (round_half_even (v / 2 powi (e - 52))) * 2 powi (e - 52) = m"
  shows "round_to_double negative v = Finite (if negative then - m else m)"
proof -
  have e: "exponent_of v = e" using assms(1-4) by (intro exponent_of_eq) simp_all
  have "(0::real) < 2 powi e" by simp
  then have pos: "0 < v" using assms(1) by linarith
  have q: "2 powi 52 \<le> v / 2 powi (e - 52)"
    using assms(1) by (simp add: power_int_diff field_simps)
  have "(2::int) ^ 52 \<le> round_half_even (v / 2 powi (e - 52))"
  proof -
    have "(2::int) ^ 52 \<le> \<lfloor>v / 2 powi (e - 52)\<rfloor>"
      using q by (simp add: le_floor_iff)
    then show ?thesis by (auto simp add: round_half_even_def Let_def)
  qed
  then have m0: "0 < m"
    using assms(5) by (auto intro!: mult_pos_pos)
  have q2: "v / 2 powi (e - 52) < 2 powi 53"
    using assms(2) by (simp add: power_int_diff power_int_add field_simps)
  have "round_half_even (v / 2 powi (e - 52)) \<le> 2 ^ 53"
  proof -
    have "\<lfloor>v / 2 powi (e - 52)\<rfloor> < 2 ^ 53"
      using q2 by (simp add: floor_less_iff)
    then show ?thesis by (auto simp add: round_half_even_def Let_def)
  qed
  then have "real_of_int (round_half_even (v / 2 powi (e - 52))) \<le> 2 powi 53"
    by (metis of_int_le_iff of_int_numeral of_int_power power_int_numeral)
  then have "m \<le> 2 powi 53 * 2 powi (e - 52)"
    using assms(5) by (auto intro!: mult_right_mono)
  also have "\<dots> = 2 powi (53 + (e - 52))"
    by (rule power_int_add [symmetric]) simp
  also have "\<dots> = 2 powi (e + 1)" by (simp add: algebra_simps)
  also have "\<dots> < 2 powi 1024"
    using assms(4) by (intro power_int_strict_increasing) simp_all
  finally have big: "\<not> 2 powi 1024 \<le> m" by simp
  have "round_to_double negative v =
      (if m = 0 then (if negative then NegZero else Finite 0)
       else if 2 powi 1024 \<le> m then (if negative then MinusInf else PlusInf)
       else Finite (if negative then - m else m))"
    unfolding round_to_double_def e Let_def assms(5) ..
  with m0 big show ?thesis by simp
qed

text \<open>
  An integer below \<open>2 ^ 53\<close> in magnitude is converted exactly, and the product of two
  finite doubles is their real product, rounded.
\<close>

lemma round_half_even_of_int: "round_half_even (of_int k) = k"
  by (simp add: round_half_even_def Let_def)

lemma double_of_int_exact:
  assumes "\<bar>n\<bar> < 2 ^ 53"
  shows "double_of_int n = Finite (of_int n)"
proof (cases "n = 0")
  case True
  then show ?thesis
    by (simp add: double_of_int_def round_to_double_def Let_def round_half_even_def)
next
  case False
  define a where "a = nat \<bar>n\<bar>"
  have a1: "1 \<le> a" using False by (simp add: a_def)
  from ex_power_ivl1 [of 2 a] a1 obtain e where e: "2 ^ e \<le> a" "a < 2 ^ (e + 1)" by auto
  have a53: "a < 2 ^ 53" using assms by (simp add: a_def)
  have "(2::nat) ^ e < 2 ^ 53" using e(1) a53 by linarith
  then have "e < 53" by (simp only: power_strict_increasing_iff rel_simps)
  then have e52: "e \<le> 52" by simp
  have v: "\<bar>real_of_int n\<bar> = real a" by (simp add: a_def)
  have lo: "2 powi int e \<le> real a"
    using e(1) by (metis of_nat_le_iff of_nat_numeral of_nat_power power_int_of_nat)
  have hi: "real a < 2 powi (int e + 1)"
  proof -
    have "real a < real (2 ^ (e + 1))" using e(2) by (simp only: of_nat_less_iff)
    also have "\<dots> = 2 powi (int e + 1)"
      by (simp add: power_int_add)
    finally show ?thesis .
  qed
  have ulp: "(2::real) powi (int e - 52) = 1 / 2 ^ (52 - e)"
    using e52 by (simp add: power_int_def nat_diff_distrib' field_simps) 
  have q: "real a / 2 powi (int e - 52) = of_int (int (a * 2 ^ (52 - e)))"
    by (simp add: ulp)
  have m: "of_int (round_half_even (real a / 2 powi (int e - 52))) * 2 powi (int e - 52) = real a"
    unfolding q round_half_even_of_int by (simp add: ulp)
  have "round_to_double (n < 0) (real a) = Finite (if n < 0 then - real a else real a)"
    using lo hi e52 m by (intro round_to_double_eval [where e = "int e"]) simp_all
  then show ?thesis
    by (simp add: double_of_int_def v) (simp add: a_def)
qed

lemma double_mul_Finite:
  "double_mul (Finite a) (Finite b) = round_to_double ((a < 0) \<noteq> (b < 0)) \<bar>a * b\<bar>"
  by (simp add: double_mul_def is_infinite_def double_sign_def double_value_def)

text \<open>Some values: the integers 1 and 3, and three products.\<close>

lemma double_of_int_1: "double_of_int 1 = Finite 1"
  unfolding double_of_int_def
  using round_to_double_eval [where e = 0 and v = 1 and m = 1 and negative = False]
  by (simp add: round_half_even_def Let_def power_int_minus)

lemma double_of_int_3: "double_of_int 3 = Finite 3"
  unfolding double_of_int_def
  using round_to_double_eval [where e = 1 and v = 3 and m = 3 and negative = False]
  by (simp add: round_half_even_def Let_def power_int_minus)

lemma double_mul_3_10: "double_mul (Finite 3) (Finite 10) = Finite 30"
  unfolding double_mul_def
  using round_to_double_eval [where e = 4 and v = 30 and m = 30 and negative = False]
  by (simp add: round_half_even_def Let_def power_int_minus is_infinite_def double_sign_def
      double_value_def)

lemma double_mul_1_minus_1: "double_mul (Finite 1) (Finite (- 1)) = Finite (- 1)"
  unfolding double_mul_def
  using round_to_double_eval [where e = 0 and v = 1 and m = 1 and negative = True]
  by (simp add: round_half_even_def Let_def power_int_minus is_infinite_def double_sign_def
      double_value_def)

text \<open>
  The double nearest to 0.1 is 3602879701896397 / 2 ^ 55; three times it lies halfway
  between two doubles and rounds to the even one, 1351079888211149 / 2 ^ 52, which
  prints as 0.30000000000000004.
\<close>

lemma double_mul_3_tenth:
  "double_mul (Finite 3) (Finite (3602879701896397 / 36028797018963968)) =
     Finite (1351079888211149 / 4503599627370496)"
  unfolding double_mul_def
  using round_to_double_eval [where e = "- 2" and v = "10808639105689191 / 36028797018963968"
      and m = "1351079888211149 / 4503599627370496" and negative = False]
  by (simp add: round_half_even_def Let_def power_int_minus is_infinite_def double_sign_def
      double_value_def)

subsection \<open>Exceptions\<close>

lemma BookingExpiredException_code:
  "getErrorCode (BookingExpiredException_ctor bookingId) = ''BUSINESS_RULE_VIOLATION''"
  by (simp add: getErrorCode_def BookingExpiredException_ctor_def BusinessRuleException_ctor_def
      MovieBookingException_ctor_def MovieBookingException.extend_def)

text \<open>
  Claim C3, as stated: every expired-booking error carries the HTTP status code 410.
  The code gives it the status code of its base class \<open>BusinessRuleException\<close>, 422:
  the claim fails for the booking 1.
\<close>

theorem BookingExpiredException_not_410:
  "getHttpStatusCode (BookingExpiredException_ctor 1) \<noteq> 410"
  by (simp add: getHttpStatusCode_def BookingExpiredException_ctor_def
      BusinessRuleException_ctor_def MovieBookingException_ctor_def
      MovieBookingException.extend_def)

text \<open>
  Claim C3, amended: for every booking id, the \<open>BookingExpiredException\<close> built for it
  has the HTTP status code 422.
\<close>

theorem BookingExpiredException_status_422:
  "getHttpStatusCode (BookingExpiredException_ctor bookingId) = 422"
  by (simp add: getHttpStatusCode_def BookingExpiredException_ctor_def
      BusinessRuleException_ctor_def MovieBookingException_ctor_def
      MovieBookingException.extend_def)

subsection \<open>Payment statuses\<close>

text \<open>
  Claim C6, as stated: every payment status of the system, also every status of the
  payment subsystem, is one of the five values PENDING, PROCESSING, COMPLETED, FAILED,
  REFUNDED. The enumeration of the payment subsystem has a sixth value, CANCELLED.
\<close>

theorem Payment_PaymentStatus_CANCELLED_not_in_five:
  "GW_CANCELLED \<notin> {GW_PENDING, GW_PROCESSING, GW_COMPLETED, GW_FAILED, GW_REFUNDED}"
  by simp

text \<open>
  Claim C6, amended: the payment status of the booking model takes exactly the five
  values PENDING, PROCESSING, COMPLETED, FAILED, REFUNDED, and the payment status of the
  payment subsystem takes exactly these five and CANCELLED.
\<close>

theorem PaymentStatus_values:
  "(UNIV :: Models_PaymentStatus set) =
     {PAY_PENDING, PAY_PROCESSING, PAY_COMPLETED, PAY_FAILED, PAY_REFUNDED} \<and>
   card (UNIV :: Models_PaymentStatus set) = 5 \<and>
   (UNIV :: Payment_PaymentStatus set) =
     {GW_PENDING, GW_PROCESSING, GW_COMPLETED, GW_FAILED, GW_REFUNDED, GW_CANCELLED} \<and>
   card (UNIV :: Payment_PaymentStatus set) = 6"
proof -
  have m: "(UNIV :: Models_PaymentStatus set) =
      {PAY_PENDING, PAY_PROCESSING, PAY_COMPLETED, PAY_FAILED, PAY_REFUNDED}"
  proof (rule set_eqI)
    fix x :: Models_PaymentStatus
    show "(x \<in> UNIV) = (x \<in> {PAY_PENDING, PAY_PROCESSING, PAY_COMPLETED, PAY_FAILED, PAY_REFUNDED})"
      by (cases x) simp_all
  qed
  have g: "(UNIV :: Payment_PaymentStatus set) =
      {GW_PENDING, GW_PROCESSING, GW_COMPLETED, GW_FAILED, GW_REFUNDED, GW_CANCELLED}"
  proof (rule set_eqI)
    fix x :: Payment_PaymentStatus
    show "(x \<in> UNIV) =
        (x \<in> {GW_PENDING, GW_PROCESSING, GW_COMPLETED, GW_FAILED, GW_REFUNDED, GW_CANCELLED})"
      by (cases x) simp_all
  qed
  have cm: "card (UNIV :: Models_PaymentStatus set) = 5"
    unfolding m by simp
  have cg: "card (UNIV :: Payment_PaymentStatus set) = 6"
    unfolding g by simp
  from m g cm cg show ?thesis by blast
qed

subsection \<open>Payment responses\<close>

text \<open>
  Claim C8: for every success flag, message and construction time, the payment response
  built by the (success, message) constructor has the status FAILED, also when the
  success flag is true; the flag itself is stored as given.
\<close>

theorem PaymentResponse_ctor_status_FAILED:
  "pr_status (PaymentResponse_ctor s m now) = GW_FAILED \<and>
   pr_status (PaymentResponse_ctor True m now) = GW_FAILED \<and>
   pr_success (PaymentResponse_ctor s m now) = s"
  by (simp add: PaymentResponse_ctor_def)

subsection \<open>Parking slots\<close>

text \<open>
  Claim C9: a slot can park a vehicle type if and only if it is unoccupied and either
  its type is the vehicle's type or it is a TRUCK slot and the vehicle is a CAR. So the
  spaces available to a type are the slots that can park it: for CAR the free car slots
  and the free truck slots, for MOTORCYCLE and TRUCK the free slots of that type only.
\<close>

theorem canPark_iff_and_available_spaces:
  "(canPark slot vt \<longleftrightarrow>
      \<not> isOccupied slot \<and> (slotType slot = vt \<or> (slotType slot = TRUCK \<and> vt = CAR))) \<and>
   getAvailableSpaces vt lot = int (length (filter (\<lambda>s. canPark s vt) (parkingSlots lot))) \<and>
   getAvailableSpaces CAR lot = free_slots_of CAR lot + free_slots_of TRUCK lot \<and>
   getAvailableSpaces MOTORCYCLE lot = free_slots_of MOTORCYCLE lot \<and>
   getAvailableSpaces TRUCK lot = free_slots_of TRUCK lot \<and>
   canPark slot MOTORCYCLE = (\<not> isOccupied slot \<and> slotType slot = MOTORCYCLE) \<and>
   canPark slot TRUCK = (\<not> isOccupied slot \<and> slotType slot = TRUCK)"
proof -
  have a: "getAvailableSpaces vt lot = int (length (filter (\<lambda>s. canPark s vt) (parkingSlots lot)))"
    unfolding getAvailableSpaces_def canPark_def isAvailable_def getSlotType_def
    by (rule arg_cong[where f="\<lambda>p. int (length (filter p (parkingSlots lot)))"]) auto
  have s: "length (filter (\<lambda>s. \<not> isOccupied s \<and> (slotType s = CAR \<or> slotType s = TRUCK)) xs)
      = length (filter (\<lambda>s. \<not> isOccupied s \<and> slotType s = CAR) xs)
      + length (filter (\<lambda>s. \<not> isOccupied s \<and> slotType s = TRUCK) xs)" for xs :: "ParkingSlot list"
    by (induction xs) auto
  have b: "getAvailableSpaces CAR lot = free_slots_of CAR lot + free_slots_of TRUCK lot"
    unfolding getAvailableSpaces_def free_slots_of_def isAvailable_def getSlotType_def
    using s[of "parkingSlots lot"] by simp
  have c: "getAvailableSpaces MOTORCYCLE lot = free_slots_of MOTORCYCLE lot"
    by (simp add: getAvailableSpaces_def free_slots_of_def isAvailable_def getSlotType_def)
  have d: "getAvailableSpaces TRUCK lot = free_slots_of TRUCK lot"
    by (simp add: getAvailableSpaces_def free_slots_of_def isAvailable_def getSlotType_def)
  show ?thesis using a b c d by (simp add: canPark_def)
qed

subsection \<open>Parking fees\<close>

text \<open>The integer division of the code is the truncation of the quotient.\<close>

lemma sdiv_truncated_hours:
  assumes "0 < (p::int)"
  shows "d sdiv p = truncated_hours p d"
proof (cases "0 \<le> d")
  case True
  then have "0 \<le> real_of_int d / real_of_int p" using assms by simp
  moreover have "d sdiv p = d div p"
    using True assms by (simp add: signed_divide_int_def sgn_if)
  ultimately show ?thesis
    by (simp add: truncated_hours_def floor_divide_of_int_eq)
next
  case False
  then have neg: "d < 0" by simp
  then have "\<not> 0 \<le> real_of_int d / real_of_int p"
    using assms by (simp add: divide_less_0_iff not_le)
  moreover have "d sdiv p = - ((- d) div p)"
    using neg assms by (simp add: signed_divide_int_def sgn_if)
  ultimately show ?thesis
    by (simp add: truncated_hours_def ceiling_divide_eq_div)
qed

text \<open>
  Claim C4: for every hourly rate \<open>r\<close>, entry time and current time, \<open>calculateFee\<close>
  returns \<open>(h + 1) * r\<close>, the \<open>double\<close> product of \<open>h + 1\<close> and the rate, where \<open>h\<close>
  is the elapsed time truncated to whole hours, and stores the fee in the ticket; an
  elapsed time of exactly \<open>k\<close> hours is billed as \<open>k + 1\<close> hours. For a finite rate and
  fewer than \<open>2 ^ 53\<close> hours the fee is the real number \<open>(h + 1) * r\<close>, rounded to the
  nearest double.
\<close>

theorem calculateFee_bills_truncated_hours_plus_one:
  assumes "0 < ticksPerHour"
  shows "fst (calculateFee r now ticksPerHour t) =
           double_mul (double_of_int (truncated_hours ticksPerHour (now - entryTime t) + 1)) r \<and>
         amountCharged (snd (calculateFee r now ticksPerHour t)) =
           Some (fst (calculateFee r now ticksPerHour t)) \<and>
         (now - entryTime t = k * ticksPerHour \<longrightarrow>
            fst (calculateFee r now ticksPerHour t) = double_mul (double_of_int (k + 1)) r) \<and>
         (r = Finite x \<and> \<bar>truncated_hours ticksPerHour (now - entryTime t) + 1\<bar> < 2 ^ 53 \<longrightarrow>
            fst (calculateFee r now ticksPerHour t) =
              round_to_double
                ((truncated_hours ticksPerHour (now - entryTime t) + 1 < 0) \<noteq> (x < 0))
                \<bar>of_int (truncated_hours ticksPerHour (now - entryTime t) + 1) * x\<bar>)"
proof -
  have fee: "fst (calculateFee r now ticksPerHour t) =
      double_mul (double_of_int ((now - entryTime t) sdiv ticksPerHour + 1)) r"
    by (simp add: calculateFee_def duration_cast_hours_def Let_def)
  have stored: "amountCharged (snd (calculateFee r now ticksPerHour t)) =
      Some (fst (calculateFee r now ticksPerHour t))"
    by (simp add: calculateFee_def Let_def)
  have whole: "(k * ticksPerHour) sdiv ticksPerHour = k"
  proof -
    have "sgn (k * ticksPerHour) = sgn k" "sgn ticksPerHour = 1"
      "\<bar>k * ticksPerHour\<bar> div \<bar>ticksPerHour\<bar> = \<bar>k\<bar>"
      using assms by (simp_all add: sgn_mult abs_mult)
    then show ?thesis
      by (simp add: signed_divide_int_def sgn_mult_abs)
  qed
  have h: "(now - entryTime t) sdiv ticksPerHour =
      truncated_hours ticksPerHour (now - entryTime t)"
    using assms by (rule sdiv_truncated_hours)
  have rounded: "fst (calculateFee r now ticksPerHour t) =
      round_to_double
        ((truncated_hours ticksPerHour (now - entryTime t) + 1 < 0) \<noteq> (x < 0))
        \<bar>of_int (truncated_hours ticksPerHour (now - entryTime t) + 1) * x\<bar>"
    if that: "r = Finite x \<and> \<bar>truncated_hours ticksPerHour (now - entryTime t) + 1\<bar> < 2 ^ 53"
  proof -
    define n where "n = truncated_hours ticksPerHour (now - entryTime t) + 1"
    have "double_of_int n = Finite (of_int n)"
      using that by (intro double_of_int_exact) (simp add: n_def)
    then have "double_mul (double_of_int n) r =
        round_to_double ((real_of_int n < 0) \<noteq> (x < 0)) \<bar>of_int n * x\<bar>"
      using that by (simp only: double_mul_Finite)
    also have "(real_of_int n < 0) = (n < 0)" by (rule of_int_less_0_iff)
    finally show ?thesis using fee unfolding h n_def by simp
  qed
  show ?thesis
    using fee stored whole h rounded by auto
qed

theorem calculateFee_bills_truncated_hours_plus_one_witness:
  "(0::int) < 3600 \<and>
   fst (calculateFee (Finite (3602879701896397 / 36028797018963968)) 7200 3600
          (ParkingTicket_ctor ''TKT00000001'' None 1 0)) =
     Finite (1351079888211149 / 4503599627370496) \<and>
   amountCharged
     (snd (calculateFee (Finite (3602879701896397 / 36028797018963968)) 7200 3600
             (ParkingTicket_ctor ''TKT00000001'' None 1 0))) =
     Some (Finite (1351079888211149 / 4503599627370496)) \<and>
   fst (calculateFee (Finite 10) 7200 3600 (ParkingTicket_ctor ''TKT00000001'' None 1 0)) =
     Finite 30"
proof -
  let ?t = "ParkingTicket_ctor ''TKT00000001'' None 1 0"
  let ?tenth = "Finite (3602879701896397 / 36028797018963968)"
  have p: "(0::int) < 3600" by simp
  have e: "7200 - entryTime ?t = 2 * 3600" by (simp add: ParkingTicket_ctor_def)
  note a = calculateFee_bills_truncated_hours_plus_one [OF p, of ?tenth 7200 ?t 2]
  note b = calculateFee_bills_truncated_hours_plus_one [OF p, of "Finite 10" 7200 ?t 2]
  from a [THEN conjunct2, THEN conjunct2, THEN conjunct1, THEN mp, OF e]
  have f1: "fst (calculateFee ?tenth 7200 3600 ?t) = Finite (1351079888211149 / 4503599627370496)"
    by (simp add: double_of_int_3 double_mul_3_tenth)
  from a [THEN conjunct2, THEN conjunct1] f1
  have f2: "amountCharged (snd (calculateFee ?tenth 7200 3600 ?t)) =
      Some (Finite (1351079888211149 / 4503599627370496))" by simp
  from b [THEN conjunct2, THEN conjunct2, THEN conjunct1, THEN mp, OF e]
  have f3: "fst (calculateFee (Finite 10) 7200 3600 ?t) = Finite 30"
    by (simp add: double_of_int_3 double_mul_3_10)
  from p f1 f2 f3 show ?thesis by blast
qed

subsection \<open>Leaving the parking lot\<close>

lemma exitParking_unknown:
  "activeTickets lot tn = None \<Longrightarrow> exitParking tn now tph lot = (Finite (- 1), lot)"
  by (simp add: exitParking_def)

lemma exitParking_known:
  "activeTickets lot tn = Some t \<Longrightarrow>
   exitParking tn now tph lot =
     (fst (calculateFee (hourlyRate lot) now tph t),
      lot\<lparr>parkingSlots :=
            (if 0 < ticketSlotNumber t \<and> ticketSlotNumber t \<le> int (length (parkingSlots lot))
             then (parkingSlots lot)[nat (ticketSlotNumber t - 1) :=
                    vacateSlot (parkingSlots lot ! nat (ticketSlotNumber t - 1))]
             else parkingSlots lot),
          activeTickets := (activeTickets lot)(tn := None)\<rparr>)"
  by (simp add: exitParking_def calculateFee_def Let_def ParkingTicket_getSlotNumber_def)

lemma fee_not_sentinel:
  assumes "0 < tph" "double_le (Finite 0) r" "entryTime t \<le> now"
  shows "fst (calculateFee r now tph t) \<noteq> Finite (- 1)"
proof -
  have "0 \<le> (now - entryTime t) sdiv tph"
    using assms by (simp add: signed_divide_int_def sgn_if pos_imp_zdiv_nonneg_iff)
  then have "0 \<le> (now - entryTime t) sdiv tph + 1" by simp
  from double_mul_nonneg [OF this assms(2)] show ?thesis
    by (simp add: calculateFee_def duration_cast_hours_def Let_def)
qed

lemma numbered_nth:
  "slots_numbered lot \<Longrightarrow> i < length (parkingSlots lot) \<Longrightarrow> slotNumber (parkingSlots lot ! i) = int i + 1"
proof -
  assume a: "slots_numbered lot" and b: "i < length (parkingSlots lot)"
  have "map slotNumber (parkingSlots lot) ! i = map (\<lambda>i. int i + 1) [0..<length (parkingSlots lot)] ! i"
    using a by (simp add: slots_numbered_def)
  then show ?thesis using b by simp
qed

lemma make_slots_numbers: "map slotNumber (make_slots start n ty) = map (\<lambda>i. start + int i) [0..<nat n]"
  by (simp add: make_slots_def ParkingSlot_ctor_def comp_def)

lemma length_make_slots: "length (make_slots start n ty) = nat n"
  by (simp add: make_slots_def)

lemma ctor_numbered: "slots_numbered (ParkingLot_ctor c t m r)"
proof -
  have cat: "map (\<lambda>i. 1 + int i) [0..<a] @ map (\<lambda>i. 1 + int a + int i) [0..<b] @
      map (\<lambda>i. 1 + int a + int b + int i) [0..<d] = map (\<lambda>i. int i + 1) [0..<a + b + d]" for a b d :: nat
    by (rule nth_equalityI) (auto simp add: nth_append)
  have "map slotNumber (parkingSlots (ParkingLot_ctor c t m r)) =
      map (\<lambda>i. 1 + int i) [0..<nat t] @ map (\<lambda>i. 1 + int (nat t) + int i) [0..<nat c] @
      map (\<lambda>i. 1 + int (nat t) + int (nat c) + int i) [0..<nat m]"
    by (simp add: ParkingLot_ctor_def Let_def make_slots_numbers length_make_slots)
  moreover have "length (parkingSlots (ParkingLot_ctor c t m r)) = nat t + nat c + nat m"
    by (simp add: ParkingLot_ctor_def Let_def length_make_slots)
  ultimately show ?thesis
    unfolding slots_numbered_def using cat [of "nat t" "nat c" "nat m"] by simp
qed

lemma find_slot_bound: "find_slot vt slots = Some i \<Longrightarrow> i < length slots"
  by (induction slots arbitrary: i) (auto split: if_splits)

lemma find_slot_canPark: "find_slot vt slots = Some i \<Longrightarrow> canPark (slots ! i) vt"
  by (induction slots arbitrary: i) (auto split: if_splits)

lemma numbered_update:
  assumes "slots_numbered lot" "i < length (parkingSlots lot)"
    "slotNumber s = slotNumber (parkingSlots lot ! i)"
  shows "map slotNumber ((parkingSlots lot)[i := s]) = map (\<lambda>i. int i + 1) [0..<length (parkingSlots lot)]"
proof -
  have "map slotNumber ((parkingSlots lot)[i := s]) = (map slotNumber (parkingSlots lot))[i := slotNumber s]"
    by (simp add: map_update)
  also have "\<dots> = map slotNumber (parkingSlots lot)"
    using assms(2,3) by (simp add: list_update_same_conv)
  finally show ?thesis using assms(1) by (simp add: slots_numbered_def)
qed

lemma park_numbered:
  assumes "slots_numbered lot"
  shows "slots_numbered (snd (parkVehicle v now lot))"
proof (cases v)
  case None
  then show ?thesis using assms by (simp add: parkVehicle_def)
next
  case (Some veh)
  show ?thesis
  proof (cases "find_slot (getType veh) (parkingSlots lot)")
    case None
    then show ?thesis using assms Some by (simp add: parkVehicle_def)
  next
    case (Some i)
    have i: "i < length (parkingSlots lot)" using Some by (rule find_slot_bound)
    have "slotNumber (snd (ParkingSlot_parkVehicle veh (parkingSlots lot ! i))) =
        slotNumber (parkingSlots lot ! i)"
      by (simp add: ParkingSlot_parkVehicle_def)
    from numbered_update [OF assms i this]
    show ?thesis
      using \<open>v = Some veh\<close> Some
      by (cases "ParkingSlot_parkVehicle veh (parkingSlots lot ! i)")
        (auto simp add: parkVehicle_def slots_numbered_def generateTicketNumber_def Let_def
          split: bool.splits)
  qed
qed

lemma exit_numbered:
  assumes "slots_numbered lot"
  shows "slots_numbered (snd (exitParking tn now tph lot))"
proof (cases "activeTickets lot tn")
  case None
  then show ?thesis using assms by (simp add: exitParking_unknown)
next
  case (Some t)
  show ?thesis
  proof (cases "0 < ticketSlotNumber t \<and> ticketSlotNumber t \<le> int (length (parkingSlots lot))")
    case True
    then have i: "nat (ticketSlotNumber t - 1) < length (parkingSlots lot)" by auto
    have "slotNumber (vacateSlot (parkingSlots lot ! nat (ticketSlotNumber t - 1))) =
        slotNumber (parkingSlots lot ! nat (ticketSlotNumber t - 1))"
      by (simp add: vacateSlot_def)
    from numbered_update [OF assms i this] True
    show ?thesis by (simp add: exitParking_known [OF Some] slots_numbered_def)
  next
    case False
    then show ?thesis using assms by (auto simp add: exitParking_known [OF Some] slots_numbered_def)
  qed
qed

text \<open>
  Claim C10, as stated: \<open>exitParking\<close> returns -1.0 if and only if the ticket number is
  not among the active tickets. In a lot whose hourly rate is -1, the fee of the active
  ticket \<open>TKT00000001\<close>, left within its first hour, is -1.0 as well.
\<close>

theorem exitParking_minus_one_with_active_ticket:
  "fst (exitParking ''TKT00000001'' 0 3600
          (snd (parkVehicle (Some (Vehicle_ctor ''KA01'' CAR)) 0
                  (ParkingLot_ctor 1 0 0 (Finite (- 1)))))) = Finite (- 1) \<and>
   activeTickets
     (snd (parkVehicle (Some (Vehicle_ctor ''KA01'' CAR)) 0 (ParkingLot_ctor 1 0 0 (Finite (- 1)))))
     ''TKT00000001'' \<noteq> None"
proof -
  let ?lot = "snd (parkVehicle (Some (Vehicle_ctor ''KA01'' CAR)) 0
      (ParkingLot_ctor 1 0 0 (Finite (- 1))))"
  let ?ticket = "ParkingTicket_ctor ''TKT00000001'' (Some (Vehicle_ctor ''KA01'' CAR)) 1 0"
  have t: "activeTickets ?lot ''TKT00000001'' = Some ?ticket" by code_simp
  have r: "hourlyRate ?lot = Finite (- 1)" by code_simp
  have "fst (calculateFee (Finite (- 1)) 0 3600 ?ticket) = Finite (- 1)"
    by (simp add: calculateFee_def duration_cast_hours_def Let_def ParkingTicket_ctor_def
        double_of_int_1 double_mul_1_minus_1)
  then have "fst (exitParking ''TKT00000001'' 0 3600 ?lot) = Finite (- 1)"
    by (simp add: exitParking_known [OF t] r)
  with t show ?thesis by simp
qed

text \<open>
  Claim C10, amended: in a lot whose slots are numbered by their position, as the
  constructor numbers them, \<open>exitParking\<close> returns -1.0 and changes nothing when the
  ticket number is not among the active tickets. When it is, \<open>exitParking\<close> returns the
  fee of the ticket, which is not -1.0 when the hourly rate is not negative and the
  entry time is not after the current time; it vacates exactly the slot named by the
  ticket and removes the ticket. A second call with the same ticket number returns -1.0
  and changes nothing.
\<close>

theorem exitParking_behaviour:
  assumes num: "slots_numbered lot"
  shows "(activeTickets lot tn = None \<longrightarrow> exitParking tn now tph lot = (Finite (- 1), lot)) \<and>
    (\<forall>t. activeTickets lot tn = Some t \<longrightarrow>
       fst (exitParking tn now tph lot) = fst (calculateFee (hourlyRate lot) now tph t) \<and>
       (0 < tph \<and> double_le (Finite 0) (hourlyRate lot) \<and> entryTime t \<le> now \<longrightarrow>
          fst (exitParking tn now tph lot) \<noteq> Finite (- 1)) \<and>
       activeTickets (snd (exitParking tn now tph lot)) = (activeTickets lot)(tn := None) \<and>
       length (parkingSlots (snd (exitParking tn now tph lot))) = length (parkingSlots lot) \<and>
       (\<forall>i < length (parkingSlots lot).
          parkingSlots (snd (exitParking tn now tph lot)) ! i =
            (if slotNumber (parkingSlots lot ! i) = ticketSlotNumber t
             then vacateSlot (parkingSlots lot ! i) else parkingSlots lot ! i))) \<and>
    exitParking tn now' tph (snd (exitParking tn now tph lot)) =
      (Finite (- 1), snd (exitParking tn now tph lot))"
proof (intro conjI allI impI)
  assume "activeTickets lot tn = None"
  then show "exitParking tn now tph lot = (Finite (- 1), lot)" by (rule exitParking_unknown)
next
  fix t assume t: "activeTickets lot tn = Some t"
  show "fst (exitParking tn now tph lot) = fst (calculateFee (hourlyRate lot) now tph t)"
    by (simp add: exitParking_known [OF t])
next
  fix t assume t: "activeTickets lot tn = Some t"
    and h: "0 < tph \<and> double_le (Finite 0) (hourlyRate lot) \<and> entryTime t \<le> now"
  have "fst (calculateFee (hourlyRate lot) now tph t) \<noteq> Finite (- 1)"
    using h by (simp add: fee_not_sentinel)
  then show "fst (exitParking tn now tph lot) \<noteq> Finite (- 1)"
    by (simp add: exitParking_known [OF t])
next
  fix t assume t: "activeTickets lot tn = Some t"
  show "activeTickets (snd (exitParking tn now tph lot)) = (activeTickets lot)(tn := None)"
    by (simp add: exitParking_known [OF t])
next
  fix t assume t: "activeTickets lot tn = Some t"
  show "length (parkingSlots (snd (exitParking tn now tph lot))) = length (parkingSlots lot)"
    by (simp add: exitParking_known [OF t])
next
  fix t i assume t: "activeTickets lot tn = Some t" and i: "i < length (parkingSlots lot)"
  have n: "slotNumber (parkingSlots lot ! i) = int i + 1"
    using num i by (rule numbered_nth)
  show "parkingSlots (snd (exitParking tn now tph lot)) ! i =
      (if slotNumber (parkingSlots lot ! i) = ticketSlotNumber t
       then vacateSlot (parkingSlots lot ! i) else parkingSlots lot ! i)"
  proof (cases "0 < ticketSlotNumber t \<and> ticketSlotNumber t \<le> int (length (parkingSlots lot))")
    case True
    then show ?thesis
      using i n by (auto simp add: exitParking_known [OF t] nth_list_update)
  next
    case False
    then show ?thesis
      using i n by (auto simp add: exitParking_known [OF t])
  qed
next
  show "exitParking tn now' tph (snd (exitParking tn now tph lot)) =
      (Finite (- 1), snd (exitParking tn now tph lot))"
  proof (cases "activeTickets lot tn")
    case None
    then show ?thesis by (simp add: exitParking_unknown)
  next
    case (Some t)
    have "activeTickets (snd (exitParking tn now tph lot)) tn = None"
      by (simp add: exitParking_known [OF Some])
    then show ?thesis by (rule exitParking_unknown)
  qed
qed

theorem exitParking_behaviour_witness:
  "slots_numbered example_lot \<and>
   activeTickets example_lot ''TKT00000001'' = Some example_ticket \<and>
   fst (exitParking ''TKT00000001'' 7200 3600 example_lot) = Finite 30 \<and>
   fst (exitParking ''TKT00000001'' 7200 3600 example_lot) \<noteq> Finite (- 1) \<and>
   activeTickets (snd (exitParking ''TKT00000001'' 7200 3600 example_lot)) ''TKT00000001'' = None \<and>
   parkingSlots (snd (exitParking ''TKT00000001'' 7200 3600 example_lot)) ! 0 =
     vacateSlot (parkingSlots example_lot ! 0) \<and>
   parkingSlots (snd (exitParking ''TKT00000001'' 7200 3600 example_lot)) ! 1 =
     parkingSlots example_lot ! 1 \<and>
   exitParking ''TKT00000001'' 9000 3600 (snd (exitParking ''TKT00000001'' 7200 3600 example_lot)) =
     (Finite (- 1), snd (exitParking ''TKT00000001'' 7200 3600 example_lot))"
proof -
  have n: "slots_numbered example_lot"
    unfolding example_lot_def by code_simp
  have t: "activeTickets example_lot ''TKT00000001'' = Some example_ticket"
    unfolding example_lot_def example_ticket_def by code_simp
  have len: "(0::nat) < length (parkingSlots example_lot)" "(1::nat) < length (parkingSlots example_lot)"
    unfolding example_lot_def by code_simp+
  have s0: "slotNumber (parkingSlots example_lot ! 0) = ticketSlotNumber example_ticket"
    unfolding example_lot_def example_ticket_def by code_simp
  have s1: "slotNumber (parkingSlots example_lot ! 1) \<noteq> ticketSlotNumber example_ticket"
    unfolding example_lot_def example_ticket_def by code_simp
  have rate: "hourlyRate example_lot = Finite 10"
    unfolding example_lot_def by code_simp
  have fee: "fst (calculateFee (hourlyRate example_lot) 7200 3600 example_ticket) = Finite 30"
    by (simp add: rate calculateFee_def duration_cast_hours_def Let_def example_ticket_def
        ParkingTicket_ctor_def double_of_int_3 double_mul_3_10)
  have pre: "(0::int) < 3600 \<and> double_le (Finite 0) (hourlyRate example_lot) \<and>
      entryTime example_ticket \<le> 7200"
    by (simp add: rate double_le_def double_value_def example_ticket_def ParkingTicket_ctor_def)
  note th = exitParking_behaviour [OF n, of "''TKT00000001''" 7200 3600 9000]
  from th t have A: "fst (exitParking ''TKT00000001'' 7200 3600 example_lot) =
      fst (calculateFee (hourlyRate example_lot) 7200 3600 example_ticket)" by blast
  from th t pre have B: "fst (exitParking ''TKT00000001'' 7200 3600 example_lot) \<noteq> Finite (- 1)"
    by blast
  from th t have C: "activeTickets (snd (exitParking ''TKT00000001'' 7200 3600 example_lot)) =
      (activeTickets example_lot)(''TKT00000001'' := None)" by blast
  from th t have D: "\<forall>i<length (parkingSlots example_lot).
      parkingSlots (snd (exitParking ''TKT00000001'' 7200 3600 example_lot)) ! i =
        (if slotNumber (parkingSlots example_lot ! i) = ticketSlotNumber example_ticket
         then vacateSlot (parkingSlots example_lot ! i) else parkingSlots example_lot ! i)" by blast
  from th have E: "exitParking ''TKT00000001'' 9000 3600 (snd (exitParking ''TKT00000001'' 7200 3600 example_lot)) =
     (Finite (- 1), snd (exitParking ''TKT00000001'' 7200 3600 example_lot))" by blast
  from D len s0 s1 have F: "parkingSlots (snd (exitParking ''TKT00000001'' 7200 3600 example_lot)) ! 0 =
     vacateSlot (parkingSlots example_lot ! 0)"
    "parkingSlots (snd (exitParking ''TKT00000001'' 7200 3600 example_lot)) ! 1 =
     parkingSlots example_lot ! 1" by simp_all
  from n t A fee B C E F show ?thesis by simp
qed

subsection \<open>Seat operations\<close>

lemma apply_seat_op_invariant:
  "seat_invariant seat \<Longrightarrow> seat_invariant (snd (apply_seat_op oper seat))"
  by (cases oper) (auto simp add: seat_invariant_def lockSeat_def releaseLock_def bookSeat_def
      split: ShowSeatStatus.splits)

lemma store_op_invariant:
  assumes "store_invariant store"
  shows "store_invariant (snd (store_op key oper store))"
proof (cases "store key")
  case None
  then show ?thesis using assms by (simp add: store_op_def)
next
  case (Some seat)
  then have "seat_invariant seat" using assms unfolding store_invariant_def by blast
  then have "seat_invariant (snd (apply_seat_op oper seat))" by (rule apply_seat_op_invariant)
  then show ?thesis
    using assms Some unfolding store_invariant_def store_op_def
    by (auto split: prod.splits if_splits)
qed

lemma run_ops_invariant:
  "store_invariant store \<Longrightarrow> store_invariant (run_ops ops store)"
proof (induction ops arbitrary: store)
  case Nil
  then show ?case by simp
next
  case (Cons a ops)
  obtain key oper where a: "a = (key, oper)" by (cases a)
  from Cons.prems have "store_invariant (snd (store_op key oper store))"
    by (rule store_op_invariant)
  then show ?case using Cons.IH a by simp
qed

lemma store_op_frame: "key' \<noteq> key \<Longrightarrow> snd (store_op key' oper store) key = store key"
  by (auto simp add: store_op_def split: option.splits prod.splits)

lemma store_op_failed: "\<not> fst (store_op key oper store) \<Longrightarrow> snd (store_op key oper store) = store"
  by (auto simp add: store_op_def split: option.splits prod.splits)

lemma booked_step:
  assumes "booked_by store key b"
  shows "store_op key oper store = (False, store)"
  using assms
  by (cases oper)
    (auto simp add: booked_by_def store_op_def lockSeat_def canBeLocked_def releaseLock_def
      bookSeat_def split: option.splits)

lemma booked_step_any:
  assumes "booked_by store key b"
  shows "snd (store_op key' oper store) key = store key"
  using booked_step [OF assms] store_op_frame [of key' key] by (cases "key' = key") auto

lemma booked_run:
  "booked_by store key b \<Longrightarrow> run_ops ops store key = store key"
proof (induction ops arbitrary: store)
  case Nil
  then show ?case by simp
next
  case (Cons a ops)
  obtain k oper where a: "a = (k, oper)" by (cases a)
  have same: "snd (store_op k oper store) key = store key"
    using Cons.prems by (rule booked_step_any)
  then have "booked_by (snd (store_op k oper store)) key b"
    using Cons.prems by (simp add: booked_by_def)
  from Cons.IH [OF this] same show ?case by (simp add: a)
qed

lemma bookings_made_booked:
  "booked_by store key b \<Longrightarrow> bookings_made ops store key = []"
proof (induction ops arbitrary: store)
  case Nil
  then show ?case by simp
next
  case (Cons a ops)
  obtain k oper where a: "a = (k, oper)" by (cases a)
  have same: "snd (store_op k oper store) key = store key"
    using Cons.prems by (rule booked_step_any)
  then have nxt: "booked_by (snd (store_op k oper store)) key b"
    using Cons.prems by (simp add: booked_by_def)
  have "k = key \<Longrightarrow> \<not> fst (store_op k oper store)"
    using booked_step [OF Cons.prems, of oper] by simp
  then show ?case
    using Cons.IH [OF nxt] by (auto simp add: a split: seat_op.splits)
qed

lemma book_granted:
  assumes "fst (store_op key (BookSeat b) store)"
  shows "locked_to store key b \<and> booked_by (snd (store_op key (BookSeat b) store)) key b"
  using assms
  by (auto simp add: store_op_def bookSeat_def locked_to_def booked_by_def
      split: option.splits if_splits)

lemma bookings_made_at_most_one:
  "length (bookings_made ops store key) \<le> 1"
proof (induction ops arbitrary: store)
  case Nil
  then show ?case by simp
next
  case (Cons a ops)
  obtain k oper where a: "a = (k, oper)" by (cases a)
  show ?case
  proof (cases "\<exists>b. oper = BookSeat b \<and> k = key \<and> fst (store_op k oper store)")
    case True
    then obtain b where b: "oper = BookSeat b" "k = key" "fst (store_op key (BookSeat b) store)"
      by auto
    from book_granted [OF b(3)]
    have "booked_by (snd (store_op key (BookSeat b) store)) key b" by simp
    then have "bookings_made ops (snd (store_op key (BookSeat b) store)) key = []"
      by (rule bookings_made_booked)
    then show ?thesis using b by (simp add: a)
  next
    case False
    then have "bookings_made (a # ops) store key =
        bookings_made ops (snd (store_op k oper store)) key"
      by (auto simp add: a split: seat_op.splits)
    then show ?thesis using Cons.IH by simp
  qed
qed

lemma locked_step:
  assumes "locked_until store key b e" "foreign_op b e oper"
  shows "store_op key oper store = (False, store)"
  using assms
  by (cases oper)
    (auto simp add: locked_until_def foreign_op_def store_op_def lockSeat_def canBeLocked_def
      lock_is_stale_def bookSeat_def split: option.splits)

lemma locked_run:
  "locked_until store key b e \<Longrightarrow> \<forall>(k, oper) \<in> set ops. k = key \<longrightarrow> foreign_op b e oper \<Longrightarrow>
   run_ops ops store key = store key"
proof (induction ops arbitrary: store)
  case Nil
  then show ?case by simp
next
  case (Cons a ops)
  obtain k oper where a: "a = (k, oper)" by (cases a)
  have same: "snd (store_op k oper store) key = store key"
  proof (cases "k = key")
    case True
    then have "foreign_op b e oper" using Cons.prems(2) a by simp
    from locked_step [OF Cons.prems(1) this] True show ?thesis by simp
  next
    case False
    then show ?thesis by (rule store_op_frame)
  qed
  then have nxt: "locked_until (snd (store_op k oper store)) key b e"
    using Cons.prems(1) by (simp add: locked_until_def)
  have rest: "\<forall>(k, oper) \<in> set ops. k = key \<longrightarrow> foreign_op b e oper"
    using Cons.prems(2) by simp
  from Cons.IH [OF nxt rest] same show ?case by (simp add: a)
qed

lemma release_granted:
  assumes "fst (store_op key ReleaseLock store)"
  shows "(\<exists>seat. store key = Some seat \<and> ss_status seat = LOCKED) \<and>
    seat_released (snd (store_op key ReleaseLock store)) key"
  using assms
  by (auto simp add: store_op_def releaseLock_def seat_released_def
      split: option.splits if_splits)

text \<open>
  Claim C1: no double booking. A seat row has one status and one holder, and each
  operation of a seat runs under the mutex of the seat, so whatever the threads do, a
  seat sees its operations one after the other: the states that can be reached are the
  states after the sequences of \<open>lockSeat\<close>, \<open>bookSeat\<close> and \<open>releaseLock\<close> operations. In
  every such state a seat is held by at most one booking in the statuses LOCKED and
  BOOKED, the invariants of the seats hold, and the operations keep it so. While one
  booking holds a seat, \<open>bookSeat\<close> for another booking fails, and so does \<open>lockSeat\<close>
  for another booking while the seat is BOOKED or its lock is not stale. A lock is
  granted only on a seat that is not held firmly, and makes the new booking the holder;
  \<open>bookSeat\<close> succeeds only for the booking that the seat is locked to, and leaves the
  seat BOOKED by it; \<open>releaseLock\<close> succeeds only on a LOCKED seat, which it leaves
  AVAILABLE with no holder. An operation that fails changes nothing, and no operation
  changes another seat. Over whole sequences: a BOOKED seat stays as it is whatever
  operations follow, and no booking of it succeeds any more; any sequence books a seat
  at most once; and a seat locked to a booking until an expiry stays locked to it
  through every sequence in which the other operations on the seat are \<open>lockSeat\<close>
  before the expiry and \<open>bookSeat\<close> for other bookings.
\<close>

theorem no_double_booking:
  "(store_invariant store \<longrightarrow> store_invariant (run_ops ops store)) \<and>
   (holds_seat (run_ops ops store) key b1 \<and> holds_seat (run_ops ops store) key b2 \<longrightarrow> b1 = b2) \<and>
   (holds_seat (run_ops ops store) key b1 \<and> b2 \<noteq> b1 \<longrightarrow>
      store_op key (BookSeat b2) (run_ops ops store) = (False, run_ops ops store) \<and>
      (held_firmly now (run_ops ops store) key \<longrightarrow>
         store_op key (LockSeat b2 d now) (run_ops ops store) = (False, run_ops ops store))) \<and>
   (fst (store_op key (LockSeat b2 d now) (run_ops ops store)) \<longrightarrow>
      \<not> held_firmly now (run_ops ops store) key \<and>
      holds_seat (snd (store_op key (LockSeat b2 d now) (run_ops ops store))) key b2) \<and>
   (fst (store_op key (BookSeat b2) (run_ops ops store)) \<longrightarrow>
      locked_to (run_ops ops store) key b2 \<and>
      booked_by (snd (store_op key (BookSeat b2) (run_ops ops store))) key b2) \<and>
   (fst (store_op key ReleaseLock (run_ops ops store)) \<longrightarrow>
      map_option ss_status (run_ops ops store key) = Some LOCKED \<and>
      seat_released (snd (store_op key ReleaseLock (run_ops ops store))) key) \<and>
   (\<not> fst (store_op key oper (run_ops ops store)) \<longrightarrow>
      snd (store_op key oper (run_ops ops store)) = run_ops ops store) \<and>
   (key' \<noteq> key \<longrightarrow> snd (store_op key' oper (run_ops ops store)) key = run_ops ops store key) \<and>
   (booked_by store key b1 \<longrightarrow>
      run_ops ops store key = store key \<and> bookings_made ops store key = []) \<and>
   length (bookings_made ops store key) \<le> 1 \<and>
   (locked_until store key b1 e \<and> (\<forall>(k, oper) \<in> set ops. k = key \<longrightarrow> foreign_op b1 e oper) \<longrightarrow>
      run_ops ops store key = store key)"
proof -
  define S where "S = run_ops ops store"
  have inv: "store_invariant store \<longrightarrow> store_invariant S"
    unfolding S_def using run_ops_invariant [of store ops] by blast
  have uniq: "holds_seat S key b1 \<and> holds_seat S key b2 \<longrightarrow> b1 = b2"
    by (auto simp add: holds_seat_def split: option.splits)
  have book: "holds_seat S key b1 \<and> b2 \<noteq> b1 \<longrightarrow>
      store_op key (BookSeat b2) S = (False, S) \<and>
      (held_firmly now S key \<longrightarrow> store_op key (LockSeat b2 d now) S = (False, S))"
    by (auto simp add: holds_seat_def held_firmly_def store_op_def bookSeat_def lockSeat_def
        canBeLocked_def split: option.splits)
  have grant: "fst (store_op key (LockSeat b2 d now) S) \<longrightarrow>
      \<not> held_firmly now S key \<and> holds_seat (snd (store_op key (LockSeat b2 d now) S)) key b2"
    by (auto simp add: held_firmly_def holds_seat_def store_op_def lockSeat_def canBeLocked_def
        split: option.splits if_splits)
  have booked: "fst (store_op key (BookSeat b2) S) \<longrightarrow>
      locked_to S key b2 \<and> booked_by (snd (store_op key (BookSeat b2) S)) key b2"
    using book_granted [of key b2 S] by blast
  have released: "fst (store_op key ReleaseLock S) \<longrightarrow>
      map_option ss_status (S key) = Some LOCKED \<and>
      seat_released (snd (store_op key ReleaseLock S)) key"
    using release_granted [of key S] by auto
  have failed: "\<not> fst (store_op key oper S) \<longrightarrow> snd (store_op key oper S) = S"
    using store_op_failed [of key oper S] by blast
  have frame: "key' \<noteq> key \<longrightarrow> snd (store_op key' oper S) key = S key"
    using store_op_frame [of key' key oper S] by blast
  have absorbing: "booked_by store key b1 \<longrightarrow>
      run_ops ops store key = store key \<and> bookings_made ops store key = []"
    using booked_run [of store key b1 ops] bookings_made_booked [of store key b1 ops] by blast
  have once: "length (bookings_made ops store key) \<le> 1"
    by (rule bookings_made_at_most_one)
  have live: "locked_until store key b1 e \<and>
      (\<forall>(k, oper) \<in> set ops. k = key \<longrightarrow> foreign_op b1 e oper) \<longrightarrow>
      run_ops ops store key = store key"
    using locked_run [of store key b1 e ops] by blast
  from inv uniq book grant booked released failed frame
  have first: "(store_invariant store \<longrightarrow> store_invariant S) \<and>
   (holds_seat S key b1 \<and> holds_seat S key b2 \<longrightarrow> b1 = b2) \<and>
   (holds_seat S key b1 \<and> b2 \<noteq> b1 \<longrightarrow>
      store_op key (BookSeat b2) S = (False, S) \<and>
      (held_firmly now S key \<longrightarrow> store_op key (LockSeat b2 d now) S = (False, S))) \<and>
   (fst (store_op key (LockSeat b2 d now) S) \<longrightarrow>
      \<not> held_firmly now S key \<and> holds_seat (snd (store_op key (LockSeat b2 d now) S)) key b2) \<and>
   (fst (store_op key (BookSeat b2) S) \<longrightarrow>
      locked_to S key b2 \<and> booked_by (snd (store_op key (BookSeat b2) S)) key b2) \<and>
   (fst (store_op key ReleaseLock S) \<longrightarrow>
      map_option ss_status (S key) = Some LOCKED \<and>
      seat_released (snd (store_op key ReleaseLock S)) key) \<and>
   (\<not> fst (store_op key oper S) \<longrightarrow> snd (store_op key oper S) = S) \<and>
   (key' \<noteq> key \<longrightarrow> snd (store_op key' oper S) key = S key)"
    by (intro conjI)
  from first absorbing once live show ?thesis
    unfolding S_def by (intro conjI) (elim conjE, assumption)+
qed

theorem no_double_booking_witness:
  "store_invariant example_store \<and>
   store_invariant (run_ops [((1, 10), LockSeat 100 15 0)] example_store) \<and>
   holds_seat (run_ops [((1, 10), LockSeat 100 15 0)] example_store) (1, 10) 100 \<and>
   (200::int) \<noteq> 100 \<and>
   held_firmly 60 (run_ops [((1, 10), LockSeat 100 15 0)] example_store) (1, 10) \<and>
   store_op (1, 10) (BookSeat 200) (run_ops [((1, 10), LockSeat 100 15 0)] example_store) =
     (False, run_ops [((1, 10), LockSeat 100 15 0)] example_store) \<and>
   store_op (1, 10) (LockSeat 200 15 60) (run_ops [((1, 10), LockSeat 100 15 0)] example_store) =
     (False, run_ops [((1, 10), LockSeat 100 15 0)] example_store) \<and>
   \<not> holds_seat (run_ops [((1, 10), LockSeat 100 15 0)] example_store) (1, 10) 200 \<and>
   booked_by example_booked_store (1, 10) 100 \<and>
   run_ops example_rival_ops example_booked_store (1, 10) = example_booked_store (1, 10) \<and>
   bookings_made example_rival_ops example_booked_store (1, 10) = [] \<and>
   locked_until (run_ops [((1, 10), LockSeat 100 15 0)] example_store) (1, 10) 100 900 \<and>
   run_ops [((1, 10), LockSeat 200 15 60), ((1, 10), BookSeat 200)]
     (run_ops [((1, 10), LockSeat 100 15 0)] example_store) (1, 10) =
     run_ops [((1, 10), LockSeat 100 15 0)] example_store (1, 10)"
proof -
  have h: "holds_seat (run_ops [((1, 10), LockSeat 100 15 0)] example_store) (1, 10) 100"
    by (simp add: example_store_def store_op_def lockSeat_def canBeLocked_def ShowSeat_ctor_def
        holds_seat_def)
  have f: "held_firmly 60 (run_ops [((1, 10), LockSeat 100 15 0)] example_store) (1, 10)"
    by (simp add: example_store_def store_op_def lockSeat_def canBeLocked_def ShowSeat_ctor_def
        held_firmly_def lock_is_stale_def)
  have n: "(200::int) \<noteq> 100" by simp
  have i: "store_invariant example_store"
    by (simp add: store_invariant_def example_store_def ShowSeat_ctor_def seat_invariant_def)
  note th = no_double_booking [where ops = "[((1, 10), LockSeat 100 15 0)]" and store = example_store
      and key = "(1, 10)" and ?b1.0 = 100 and ?b2.0 = 200 and now = 60 and d = 15]
  have i': "store_invariant (run_ops [((1, 10), LockSeat 100 15 0)] example_store)"
    using th [THEN conjunct1, THEN mp, OF i] .
  have u: "holds_seat (run_ops [((1, 10), LockSeat 100 15 0)] example_store) (1, 10) 200 \<Longrightarrow> False"
    using th [THEN conjunct2, THEN conjunct1] h by simp
  have b: "store_op (1, 10) (BookSeat 200) (run_ops [((1, 10), LockSeat 100 15 0)] example_store) =
      (False, run_ops [((1, 10), LockSeat 100 15 0)] example_store)"
    using th [THEN conjunct2, THEN conjunct2, THEN conjunct1, THEN mp, OF conjI, OF h n] by (rule conjunct1)
  have l: "store_op (1, 10) (LockSeat 200 15 60) (run_ops [((1, 10), LockSeat 100 15 0)] example_store) =
      (False, run_ops [((1, 10), LockSeat 100 15 0)] example_store)"
    using th [THEN conjunct2, THEN conjunct2, THEN conjunct1, THEN mp, OF conjI, OF h n, THEN conjunct2, THEN mp, OF f] .
  have bk: "booked_by example_booked_store (1, 10) 100"
    by (simp add: example_booked_store_def example_store_def store_op_def lockSeat_def
        canBeLocked_def bookSeat_def ShowSeat_ctor_def booked_by_def)
  note th2 = no_double_booking [where ops = example_rival_ops and store = example_booked_store
      and key = "(1, 10)" and ?b1.0 = 100]
  note absorbing = th2 [THEN conjunct2, THEN conjunct2, THEN conjunct2, THEN conjunct2,
      THEN conjunct2, THEN conjunct2, THEN conjunct2, THEN conjunct2, THEN conjunct1,
      THEN mp, OF bk]
  have lu: "locked_until (run_ops [((1, 10), LockSeat 100 15 0)] example_store) (1, 10) 100 900"
    by (simp add: example_store_def store_op_def lockSeat_def canBeLocked_def ShowSeat_ctor_def
        locked_until_def)
  have fo: "\<forall>(k, oper) \<in> set [((1, 10), LockSeat 200 15 60), ((1, 10), BookSeat 200)].
      k = (1, 10) \<longrightarrow> foreign_op 100 900 oper"
    by (simp add: foreign_op_def)
  note th3 = no_double_booking
      [where ops = "[((1, 10), LockSeat 200 15 60), ((1, 10), BookSeat 200)]"
        and store = "run_ops [((1, 10), LockSeat 100 15 0)] example_store"
        and key = "(1, 10)" and ?b1.0 = 100 and e = 900]
  note live = th3 [THEN conjunct2, THEN conjunct2, THEN conjunct2, THEN conjunct2,
      THEN conjunct2, THEN conjunct2, THEN conjunct2, THEN conjunct2, THEN conjunct2,
      THEN conjunct2, THEN mp, OF conjI, OF lu fo]
  from i i' h n f b l u bk absorbing lu live show ?thesis by blast
qed

subsection \<open>Configuration defaults\<close>

text \<open>
  Claim C7: the booking service and the payment service constructed without
  configuration arguments have the lock duration 15 minutes, the cleanup interval 5
  minutes, at most 3 payment retries and the payment retry delay 2 seconds (and at most
  3 booking retries and the default gateway \<open>mock\<close>).
\<close>

theorem constructor_defaults:
  "defaultLockDurationMinutes (BookingService_ctor bookingRepository showRepository None None None) = 15 \<and>
   cleanupIntervalMinutes (BookingService_ctor bookingRepository showRepository None None None) = 5 \<and>
   maxBookingRetries (BookingService_ctor bookingRepository showRepository None None None) = 3 \<and>
   ps_maxRetries (PaymentService_ctor None None None) = 3 \<and>
   ps_retryDelay (PaymentService_ctor None None None) = 2 \<and>
   ps_defaultGateway (PaymentService_ctor None None None) = ''mock''"
  by (simp add: BookingService_ctor_def PaymentService_ctor_def default_argument_def)

subsection \<open>The reservation engine: locking and releasing the seats of a request\<close>

lemma getSeats_Some:
  "getSeats store showId seatIds = Some rows \<Longrightarrow> seatId \<in> set seatIds \<Longrightarrow>
   store (showId, seatId) \<noteq> None"
  by (induction seatIds arbitrary: rows) (auto split: option.splits)

lemma releaseSeatLock_idem [simp]:
  "releaseSeatLock b (releaseSeatLock b seat) = releaseSeatLock b seat"
  by (simp add: releaseSeatLock_def releaseLock_def)

lemma releaseSeatLocks_at:
  "releaseSeatLocks showId seatIds b store key =
     (if fst key = showId \<and> snd key \<in> set seatIds
      then map_option (releaseSeatLock b) (store key) else store key)"
proof (induction seatIds arbitrary: store)
  case Nil
  then show ?case by simp
next
  case (Cons seatId seatIds)
  define store1 where "store1 =
    (case store (showId, seatId) of
       None \<Rightarrow> store
     | Some seat \<Rightarrow> store((showId, seatId) \<mapsto> releaseSeatLock b seat))"
  have step: "releaseSeatLocks showId (seatId # seatIds) b store key =
      releaseSeatLocks showId seatIds b store1 key"
    by (simp add: store1_def)
  have at: "store1 key =
      (if key = (showId, seatId) then map_option (releaseSeatLock b) (store key) else store key)"
    by (simp add: store1_def split: option.splits)
  have "releaseSeatLocks showId seatIds b store1 key =
      (if fst key = showId \<and> snd key \<in> set seatIds
       then map_option (releaseSeatLock b) (store1 key) else store1 key)"
    by (rule Cons.IH)
  also have "\<dots> =
      (if fst key = showId \<and> snd key \<in> set (seatId # seatIds)
       then map_option (releaseSeatLock b) (store key) else store key)"
    unfolding at by (cases key) (auto simp add: option.map_comp comp_def)
  finally show ?case unfolding step .
qed

lemma conditionalLockSeat_True:
  assumes "conditionalLockSeat key b d now store = (True, store')"
  shows "\<exists>seat. store key = Some seat \<and> canBeLocked now seat \<and>
           store' = store(key \<mapsto> snd (lockSeat b d now seat))"
  using assms
  by (auto simp add: conditionalLockSeat_def store_op_def lockSeat_def
      split: option.splits if_splits)

lemma conditionalLockSeat_False:
  assumes "conditionalLockSeat key b d now store = (False, store')"
  shows "store' = store"
  using assms
  by (auto simp add: conditionalLockSeat_def store_op_def lockSeat_def
      split: option.splits if_splits)

lemma locked_to_lockSeat:
  "canBeLocked now seat \<Longrightarrow> locked_to (store(key \<mapsto> snd (lockSeat b d now seat))) key b"
  by (simp add: locked_to_def lockSeat_def)

text \<open>
  When the loop of step 5 succeeds, every seat of the request is locked to the booking
  until the expiry.
\<close>

lemma lockSeatsFrom_True:
  assumes "lockSeatsFrom showId seatIds b d now updated store = (True, store')"
  shows "(\<forall>seatId \<in> set seatIds. locked_until store' (showId, seatId) b (now + 60 * d)) \<and>
    (\<forall>key. locked_until store key b (now + 60 * d) \<longrightarrow> locked_until store' key b (now + 60 * d))"
  using assms
proof (induction seatIds arbitrary: updated store)
  case Nil
  then show ?case by simp
next
  case (Cons seatId seatIds)
  from Cons.prems obtain store1 where
    c: "conditionalLockSeat (showId, seatId) b d now store = (True, store1)" and
    r: "lockSeatsFrom showId seatIds b d now (seatId # updated) store1 = (True, store')"
    by (auto split: prod.splits bool.splits)
  from conditionalLockSeat_True [OF c] obtain seat where
    s: "store (showId, seatId) = Some seat" "canBeLocked now seat"
    "store1 = store((showId, seatId) \<mapsto> snd (lockSeat b d now seat))" by blast
  have here: "locked_until store1 (showId, seatId) b (now + 60 * d)"
    using s by (simp add: locked_until_def lockSeat_def)
  have keep: "locked_until store key b (now + 60 * d) \<Longrightarrow> locked_until store1 key b (now + 60 * d)" for key
    using s by (auto simp add: locked_until_def lockSeat_def)
  from Cons.IH [OF r] here keep show ?case by auto
qed

text \<open>
  When the loop of step 5 fails, the store is an intermediate store with the seats
  updated so far released.
\<close>

lemma lockSeatsFrom_False_store:
  assumes "lockSeatsFrom showId seatIds b d now updated store = (False, store')"
  shows "\<exists>store1 updated1. store' = releaseSeatLocks showId updated1 b store1 \<and>
    (\<forall>key. store1 key = store key \<or> (store1 key \<noteq> None \<and> locked_to store1 key b \<and> fst key = showId \<and> snd key \<in> set updated1)) \<and>
    set updated \<subseteq> set updated1"
  using assms
proof (induction seatIds arbitrary: updated store)
  case Nil
  then show ?case by simp
next
  case (Cons seatId seatIds)
  show ?case
  proof (cases "fst (conditionalLockSeat (showId, seatId) b d now store)")
    case True
    then obtain store1 where
      c: "conditionalLockSeat (showId, seatId) b d now store = (True, store1)"
      by (cases "conditionalLockSeat (showId, seatId) b d now store") auto
    with Cons.prems have
      r: "lockSeatsFrom showId seatIds b d now (seatId # updated) store1 = (False, store')"
      by simp
    from conditionalLockSeat_True [OF c] obtain seat where
      s: "store (showId, seatId) = Some seat" "canBeLocked now seat"
      "store1 = store((showId, seatId) \<mapsto> snd (lockSeat b d now seat))" by blast
    from Cons.IH [OF r] obtain store2 updated2 where
      h: "store' = releaseSeatLocks showId updated2 b store2"
      "\<forall>key. store2 key = store1 key \<or>
         (store2 key \<noteq> None \<and> locked_to store2 key b \<and> fst key = showId \<and> snd key \<in> set updated2)"
      "set (seatId # updated) \<subseteq> set updated2" by blast
    have "store2 key = store key \<or>
        (store2 key \<noteq> None \<and> locked_to store2 key b \<and> fst key = showId \<and> snd key \<in> set updated2)" for key
    proof (cases "key = (showId, seatId)")
      case True
      then show ?thesis
        using h(2) [rule_format, of key] h(3) s(2,3) by (auto simp add: locked_to_def lockSeat_def)
    next
      case False
      then show ?thesis using h(2) [rule_format, of key] s(3) by auto
    qed
    with h(1,3) show ?thesis by (intro exI [of _ store2] exI [of _ updated2]) auto
  next
    case False
    then obtain store1 where
      c: "conditionalLockSeat (showId, seatId) b d now store = (False, store1)"
      by (cases "conditionalLockSeat (showId, seatId) b d now store") auto
    from conditionalLockSeat_False [OF c] have e: "store1 = store" .
    from Cons.prems c e have res: "store' = releaseSeatLocks showId updated b store" by simp
    then show ?thesis by (intro exI [of _ store] exI [of _ updated]) auto
  qed
qed

lemma lockSeatsFrom_False_released:
  assumes "lockSeatsFrom showId seatIds b d now updated store = (False, store')"
  shows "store' key = store key \<or> seat_released store' key"
proof -
  from lockSeatsFrom_False_store [OF assms] obtain store1 updated1 where
    h: "store' = releaseSeatLocks showId updated1 b store1"
    "\<forall>key. store1 key = store key \<or>
       (store1 key \<noteq> None \<and> locked_to store1 key b \<and> fst key = showId \<and> snd key \<in> set updated1)"
    by blast
  show ?thesis
    using h(2) [rule_format, of key]
    by (auto simp add: h(1) releaseSeatLocks_at locked_to_def seat_released_def
        releaseSeatLock_def releaseLock_def split: option.splits)
qed

lemma lockSeatsFrom_False_unlocked:
  assumes "lockSeatsFrom showId seatIds b d now updated store = (False, store')"
    and "\<not> locked_to store key b"
  shows "\<not> locked_to store' key b"
proof -
  from lockSeatsFrom_False_store [OF assms(1)] obtain store1 updated1 where
    h: "store' = releaseSeatLocks showId updated1 b store1"
    "\<forall>key. store1 key = store key \<or>
       (store1 key \<noteq> None \<and> locked_to store1 key b \<and> fst key = showId \<and> snd key \<in> set updated1)"
    by blast
  show ?thesis
    using h(2) [rule_format, of key] assms(2)
    by (auto simp add: h(1) releaseSeatLocks_at locked_to_def
        releaseSeatLock_def releaseLock_def split: option.splits)
qed

lemma setBookingStatus_at:
  "rows b = Some row \<Longrightarrow>
   map_option b_bookingStatus (setBookingStatus b st rows b) = Some st"
  by (simp add: setBookingStatus_def)

subsection \<open>The reservation engine: atomicity of \<open>initiateBooking\<close>\<close>


lemma getSeats_all_present:
  "\<forall>seatId \<in> set seatIds. store (showId, seatId) \<noteq> None \<Longrightarrow>
   \<exists>rows. getSeats store showId seatIds = Some rows"
  by (induction seatIds) auto

lemma getSeats_None:
  "getSeats store showId seatIds = None \<Longrightarrow> \<exists>seatId \<in> set seatIds. store (showId, seatId) = None"
proof (rule ccontr)
  assume g: "getSeats store showId seatIds = None"
    and n: "\<not> (\<exists>seatId \<in> set seatIds. store (showId, seatId) = None)"
  from n have "\<forall>seatId \<in> set seatIds. store (showId, seatId) \<noteq> None" by simp
  from getSeats_all_present [OF this] g show False by simp
qed






subsection \<open>The reservation engine: lock, then cancel\<close>

lemma getSeats_available:
  assumes "\<forall>seatId \<in> set seatIds. \<exists>seat. store (showId, seatId) = Some seat \<and> ss_status seat = AVAILABLE"
  shows "\<exists>rows. getSeats store showId seatIds = Some rows \<and> (\<forall>row \<in> set rows. ss_status row = AVAILABLE)"
  using assms
proof (induction seatIds)
  case Nil
  then show ?case by simp
next
  case (Cons seatId seatIds)
  then obtain seat rows where
    "store (showId, seatId) = Some seat" "ss_status seat = AVAILABLE"
    "getSeats store showId seatIds = Some rows" "\<forall>row \<in> set rows. ss_status row = AVAILABLE"
    by auto
  then show ?case by simp
qed

lemma failedSeatIds_available:
  "\<forall>row \<in> set rows. ss_status row = AVAILABLE \<Longrightarrow> failedSeatIds now rows = []"
  by (simp add: failedSeatIds_def seat_unavailable_def filter_empty_conv)

lemma lockSeatsFrom_available:
  assumes "distinct seatIds"
    and "\<forall>seatId \<in> set seatIds. \<exists>seat. store (showId, seatId) = Some seat \<and> ss_status seat = AVAILABLE"
  shows "\<exists>store'. lockSeatsFrom showId seatIds b d now updated store = (True, store') \<and>
    (\<forall>key. store' key =
       (if fst key = showId \<and> snd key \<in> set seatIds
        then map_option (\<lambda>seat. snd (lockSeat b d now seat)) (store key) else store key))"
  using assms
proof (induction seatIds arbitrary: updated store)
  case Nil
  then show ?case by simp
next
  case (Cons seatId seatIds)
  from Cons.prems(2) obtain seat where
    s: "store (showId, seatId) = Some seat" "ss_status seat = AVAILABLE" by auto
  define store1 where "store1 = store((showId, seatId) \<mapsto> snd (lockSeat b d now seat))"
  have c: "conditionalLockSeat (showId, seatId) b d now store = (True, store1)"
    using s by (simp add: conditionalLockSeat_def store_op_def lockSeat_def canBeLocked_def store1_def)
  have d: "distinct seatIds" and n: "seatId \<notin> set seatIds" using Cons.prems(1) by simp_all
  have av: "\<forall>sid \<in> set seatIds. \<exists>seat. store1 (showId, sid) = Some seat \<and> ss_status seat = AVAILABLE"
    using Cons.prems(2) n by (auto simp add: store1_def)
  from Cons.IH [OF d av, of "seatId # updated"] obtain store' where
    r: "lockSeatsFrom showId seatIds b d now (seatId # updated) store1 = (True, store')" and
    at: "\<forall>key. store' key =
       (if fst key = showId \<and> snd key \<in> set seatIds
        then map_option (\<lambda>seat. snd (lockSeat b d now seat)) (store1 key) else store1 key)"
    by blast
  have res: "lockSeatsFrom showId (seatId # seatIds) b d now updated store = (True, store')"
    using c r by simp
  have "store' key =
       (if fst key = showId \<and> snd key \<in> set (seatId # seatIds)
        then map_option (\<lambda>seat. snd (lockSeat b d now seat)) (store key) else store key)" for key
    using at [rule_format, of key] n s by (cases key) (auto simp add: store1_def)
  with res show ?case by blast
qed

lemma release_after_lock:
  assumes "ss_status seat = AVAILABLE" "seat_invariant seat"
  shows "releaseSeatLock b (snd (lockSeat b d now seat)) = seat"
  using assms
  by (simp add: releaseSeatLock_def lockSeat_def canBeLocked_def releaseLock_def seat_invariant_def)

text \<open>
  Claim C5: round trip. For every request of distinct seats of a show that are
  AVAILABLE (with no holder and no expiry, as the invariant of an AVAILABLE seat says),
  \<open>initiateBooking\<close> succeeds and locks them to a PENDING booking, and cancelling that
  booking as its user succeeds, sets the booking to CANCELLED and restores every one
  of those seats: the row is AVAILABLE with no holder and no expiry, and equal to the
  row before the lock.
\<close>

theorem lock_then_cancel_restores_seats:
  assumes dist: "distinct (req_seatIds request)"
    and avail: "\<forall>seatId \<in> set (req_seatIds request). \<exists>seat.
      seatStore svc (req_showId request, seatId) = Some seat \<and> ss_status seat = AVAILABLE \<and>
      seat_invariant seat"
  shows "\<exists>result svc1. initiateBooking request now svc = (Inr result, svc1) \<and>
      (\<forall>seatId \<in> set (req_seatIds request).
         locked_until (seatStore svc1) (req_showId request, seatId) (br_bookingId result)
           (br_expiresAt result)) \<and>
      map_option b_bookingStatus (bookingStore svc1 (br_bookingId result)) = Some PENDING \<and>
      fst (cancelBooking (br_bookingId result) (req_userId request) now' showStart cancelGrace svc1)
        = Inr False \<and>
      map_option b_bookingStatus
        (bookingStore
           (snd (cancelBooking (br_bookingId result) (req_userId request) now' showStart cancelGrace svc1))
           (br_bookingId result)) = Some CANCELLED \<and>
      (\<forall>seatId \<in> set (req_seatIds request).
         seatStore
           (snd (cancelBooking (br_bookingId result) (req_userId request) now' showStart cancelGrace svc1))
           (req_showId request, seatId) = seatStore svc (req_showId request, seatId) \<and>
         seat_released
           (seatStore
              (snd (cancelBooking (br_bookingId result) (req_userId request) now' showStart cancelGrace svc1)))
           (req_showId request, seatId))"
proof -
  let ?show = "req_showId request" and ?ids = "req_seatIds request"
  let ?b = "nextBookingId svc" and ?d = "req_lockDurationMinutes request"
  have avail': "\<forall>seatId \<in> set ?ids. \<exists>seat.
      seatStore svc (?show, seatId) = Some seat \<and> ss_status seat = AVAILABLE"
    using avail by blast
  from getSeats_available [OF avail'] obtain rows where
    g: "getSeats (seatStore svc) ?show ?ids = Some rows" and
    ra: "\<forall>row \<in> set rows. ss_status row = AVAILABLE" by blast
  have f: "failedSeatIds now rows = []" using ra by (rule failedSeatIds_available)
  from lockSeatsFrom_available [OF dist avail', of ?b ?d now "[]"] obtain store' where
    l: "attemptSeatLocking ?show ?ids ?b ?d now (seatStore svc) = (True, store')" and
    at: "\<forall>key. store' key =
       (if fst key = ?show \<and> snd key \<in> set ?ids
        then map_option (\<lambda>seat. snd (lockSeat ?b ?d now seat)) (seatStore svc key)
        else seatStore svc key)"
    unfolding attemptSeatLocking_def by blast
  define row where "row =
    \<lparr>b_id = ?b, b_userId = req_userId request, b_showId = ?show, b_seatIds = ?ids,
     b_bookingStatus = PENDING, b_paymentStatus = PAY_PENDING,
     b_totalAmount = calculateTotalPrice rows, b_paymentRef = None, b_createdAt = now,
     b_expiresAt = calculateExpiryTime now ?d, b_updatedAt = now\<rparr>"
  define svc1 where "svc1 =
    svc\<lparr>bookingStore := (bookingStore svc)(?b \<mapsto> row), nextBookingId := ?b + 1,
        seatStore := store'\<rparr>"
  define result where "result =
    \<lparr>br_bookingId = ?b, br_expiresAt = calculateExpiryTime now ?d,
     br_totalAmount = calculateTotalPrice rows\<rparr>"
  have init: "initiateBooking request now svc = (Inr result, svc1)"
    using g f l
    by (simp add: initiateBooking_def createPendingBooking_def insertBooking_def Let_def
        result_def svc1_def row_def)
  have id: "br_bookingId result = ?b" by (simp add: result_def)
  have locked: "\<forall>seatId \<in> set ?ids.
      locked_until (seatStore svc1) (?show, seatId) (br_bookingId result) (br_expiresAt result)"
    using lockSeatsFrom_True [OF l [unfolded attemptSeatLocking_def]]
    by (simp add: svc1_def result_def calculateExpiryTime_def)
  have pending: "map_option b_bookingStatus (bookingStore svc1 (br_bookingId result)) = Some PENDING"
    by (simp add: svc1_def result_def row_def)
  let ?c = "cancelBooking ?b (req_userId request) now' showStart cancelGrace svc1"
  have cancel: "?c =
      (Inr False,
       svc1\<lparr>seatStore := releaseSeatLocks ?show ?ids ?b store',
            bookingStore := setBookingStatus ?b CANCELLED (bookingStore svc1)\<rparr>)"
    by (simp add: cancelBooking_def svc1_def row_def)
  have ok: "fst ?c = Inr False" by (simp add: cancel)
  have stored: "bookingStore svc1 ?b = Some row" by (simp add: svc1_def)
  have cancelled: "map_option b_bookingStatus (bookingStore (snd ?c) ?b) = Some CANCELLED"
    by (simp add: cancel setBookingStatus_def stored)
  have restored: "seatStore (snd ?c) (?show, seatId) = seatStore svc (?show, seatId) \<and>
      seat_released (seatStore (snd ?c)) (?show, seatId)" if m: "seatId \<in> set ?ids" for seatId
  proof -
    from avail m obtain seat where
      s: "seatStore svc (?show, seatId) = Some seat" "ss_status seat = AVAILABLE"
        "seat_invariant seat" by blast
    have "seatStore (snd ?c) (?show, seatId) =
        map_option (releaseSeatLock ?b) (store' (?show, seatId))"
      using m by (simp add: cancel releaseSeatLocks_at)
    also have "\<dots> = Some (releaseSeatLock ?b (snd (lockSeat ?b ?d now seat)))"
      using at [rule_format, of "(?show, seatId)"] m s(1) by simp
    also have "\<dots> = Some seat"
      using release_after_lock [OF s(2,3)] by simp
    finally have e: "seatStore (snd ?c) (?show, seatId) = Some seat" .
    then show ?thesis
      using s by (simp add: seat_released_def seat_invariant_def)
  qed
  let ?c' = "cancelBooking (br_bookingId result) (req_userId request) now' showStart cancelGrace svc1"
  have all: "initiateBooking request now svc = (Inr result, svc1) \<and>
      (\<forall>seatId \<in> set ?ids.
         locked_until (seatStore svc1) (?show, seatId) (br_bookingId result) (br_expiresAt result)) \<and>
      map_option b_bookingStatus (bookingStore svc1 (br_bookingId result)) = Some PENDING \<and>
      fst ?c' = Inr False \<and>
      map_option b_bookingStatus (bookingStore (snd ?c') (br_bookingId result)) = Some CANCELLED \<and>
      (\<forall>seatId \<in> set ?ids.
         seatStore (snd ?c') (?show, seatId) = seatStore svc (?show, seatId) \<and>
         seat_released (seatStore (snd ?c')) (?show, seatId))"
    using init locked pending ok cancelled restored unfolding id by blast
  show ?thesis
    by (rule exI [of _ result], rule exI [of _ svc1], rule all)
qed

theorem lock_then_cancel_restores_seats_witness:
  "distinct (req_seatIds (SeatSelectionRequest_ctor 1 [10, 12] 7)) \<and>
   map_option ss_status (seatStore example_service (1, 10)) = Some AVAILABLE \<and>
   map_option ss_status (seatStore example_service (1, 12)) = Some AVAILABLE \<and>
   fst (initiateBooking (SeatSelectionRequest_ctor 1 [10, 12] 7) 0 example_service) =
     Inr \<lparr>br_bookingId = 1, br_expiresAt = 900, br_totalAmount = 200\<rparr> \<and>
   locked_until
     (seatStore (snd (initiateBooking (SeatSelectionRequest_ctor 1 [10, 12] 7) 0 example_service)))
     (1, 10) 1 900 \<and>
   fst (cancelBooking 1 7 10 5000 0
          (snd (initiateBooking (SeatSelectionRequest_ctor 1 [10, 12] 7) 0 example_service))) =
     Inr False \<and>
   seatStore
     (snd (cancelBooking 1 7 10 5000 0
        (snd (initiateBooking (SeatSelectionRequest_ctor 1 [10, 12] 7) 0 example_service))))
     (1, 10) = seatStore example_service (1, 10) \<and>
   seatStore
     (snd (cancelBooking 1 7 10 5000 0
        (snd (initiateBooking (SeatSelectionRequest_ctor 1 [10, 12] 7) 0 example_service))))
     (1, 12) = seatStore example_service (1, 12)"
proof -
  let ?R = "SeatSelectionRequest_ctor 1 [10, 12] 7"
  let ?I = "initiateBooking ?R 0 example_service"
  have ids: "req_seatIds ?R = [10, 12]" "req_showId ?R = 1" "req_userId ?R = 7"
    by (simp_all add: SeatSelectionRequest_ctor_def)
  have d: "distinct (req_seatIds ?R)" by (simp add: ids)
  have s10: "map_option ss_status (seatStore example_service (1, 10)) = Some AVAILABLE"
    and s12: "map_option ss_status (seatStore example_service (1, 12)) = Some AVAILABLE"
    by (simp_all add: example_service_def BookingService_ctor_def ShowSeat_ctor_def)
  have a: "\<forall>seatId \<in> set (req_seatIds ?R). \<exists>seat.
      seatStore example_service (req_showId ?R, seatId) = Some seat \<and>
      ss_status seat = AVAILABLE \<and> seat_invariant seat"
    by (simp add: ids example_service_def BookingService_ctor_def ShowSeat_ctor_def
        seat_invariant_def)
  have f: "fst ?I = Inr \<lparr>br_bookingId = 1, br_expiresAt = 900, br_totalAmount = 200\<rparr>"
    by code_simp
  from lock_then_cancel_restores_seats [OF d a, where now = 0 and now' = 10 and showStart = 5000 and cancelGrace = 0]
  obtain result svc1 where
    h1: "?I = (Inr result, svc1)" and
    h2: "\<forall>seatId \<in> set (req_seatIds ?R).
         locked_until (seatStore svc1) (req_showId ?R, seatId) (br_bookingId result)
           (br_expiresAt result)" and
    h3: "fst (cancelBooking (br_bookingId result) (req_userId ?R) 10 5000 0 svc1) = Inr False" and
    h4: "\<forall>seatId \<in> set (req_seatIds ?R).
         seatStore (snd (cancelBooking (br_bookingId result) (req_userId ?R) 10 5000 0 svc1))
           (req_showId ?R, seatId) = seatStore example_service (req_showId ?R, seatId) \<and>
         seat_released
           (seatStore (snd (cancelBooking (br_bookingId result) (req_userId ?R) 10 5000 0 svc1)))
           (req_showId ?R, seatId)"
    by blast
  from h1 f have r: "result = \<lparr>br_bookingId = 1, br_expiresAt = 900, br_totalAmount = 200\<rparr>"
    and v: "svc1 = snd ?I" by simp_all
  from h2 have l: "locked_until (seatStore (snd ?I)) (1, 10) 1 900"
    unfolding ids r v by simp
  from h3 have c: "fst (cancelBooking 1 7 10 5000 0 (snd ?I)) = Inr False"
    unfolding ids r v by simp
  from h4 have e: "seatStore (snd (cancelBooking 1 7 10 5000 0 (snd ?I))) (1, 10) =
      seatStore example_service (1, 10)"
    "seatStore (snd (cancelBooking 1 7 10 5000 0 (snd ?I))) (1, 12) =
      seatStore example_service (1, 12)"
    unfolding ids r v by simp_all
  from d s10 s12 f l c e show ?thesis by blast
qed

end
